theory Spec2Isabelle
  imports Main "HOL-Library.AList"
begin

section \<open>The browser client of the Android container module (client.js)\<close>

text \<open>
  The development embeds \<^verbatim>\<open>src/resources/client.js\<close>, the module object
  \<^verbatim>\<open>window.ANDROID_CLIENT\<close>. Every function of the module becomes a HOL
  function of the same name (without the leading underscore, which is not an Isabelle
  identifier). The fields of the module object, the DOM elements it writes, the timers
  of \<^verbatim>\<open>window\<close> and the AJAX requests it sends are fields of one state
  record that every function takes and returns.
\<close>

subsection \<open>JavaScript values that arrive in JSON responses\<close>

text \<open>
  The fields \<^verbatim>\<open>status\<close>, \<^verbatim>\<open>payload\<close> and \<^verbatim>\<open>ticket\<close> of a response are
  whatever the JSON carried. The wire protocol sends strings; a missing field reads as
  \<^verbatim>\<open>undefined\<close>, and \<^verbatim>\<open>null\<close> and booleans are kept as well. Numbers, arrays and
  objects are outside the protocol and are not modelled.
\<close>

datatype jsval = JUndefined | JNull | JBool bool | JStr string

text \<open>String concatenation with \<^verbatim>\<open>+ ''\<close>: JavaScript's ToString.\<close>

fun to_string :: "jsval \<Rightarrow> string" where
  "to_string JUndefined = ''undefined''"
| "to_string JNull = ''null''"
| "to_string (JBool True) = ''true''"
| "to_string (JBool False) = ''false''"
| "to_string (JStr s) = s"

text \<open>Strict equality \<^verbatim>\<open>===\<close> with a string constant.\<close>

definition strict_eq_str :: "jsval \<Rightarrow> string \<Rightarrow> bool" where
  "strict_eq_str v s = (case v of JStr t \<Rightarrow> t = s | _ \<Rightarrow> False)"

subsection \<open>\<^verbatim>\<open>_newlineToBr\<close>: the regular expression, as the engine runs it\<close>

definition CR :: char where "CR = CHR 0x0D"
definition LF :: char where "LF = CHR 0x0A"

text \<open>
  Group 2 of the expression, \<^verbatim>\<open>(\r\n|\n\r|\r|\n)\<close>, matched at the head of the
  text: the alternatives are tried in the order written, and the first that matches
  wins (nothing follows the group, so there is no backtracking into it).
\<close>

definition match_group2 :: "string \<Rightarrow> string option" where
  "match_group2 s =
     (if take 2 s = [CR, LF] then Some [CR, LF]
      else if take 2 s = [LF, CR] then Some [LF, CR]
      else if take 1 s = [CR] then Some [CR]
      else if take 1 s = [LF] then Some [LF]
      else None)"

text \<open>The character class \<^verbatim>\<open>[^>\r\n]\<close> of group 1.\<close>

definition group1_class :: "char \<Rightarrow> bool" where
  "group1_class c = (c \<noteq> CHR ''>'' \<and> c \<noteq> CR \<and> c \<noteq> LF)"

text \<open>
  The whole expression \<^verbatim>\<open>([^>\r\n]?)(\r\n|\n\r|\r|\n)\<close> matched at the head of
  the text. The optional group 1 is greedy: it first takes one character of its class,
  and only when group 2 then fails does the engine backtrack to the empty group 1. The
  result is the pair of captures \<^verbatim>\<open>($1, $2)\<close>.
\<close>

definition match_here :: "string \<Rightarrow> (string \<times> string) option" where
  "match_here s =
     (case (case s of
              c # r \<Rightarrow> if group1_class c
                       then map_option (\<lambda>nl. ([c], nl)) (match_group2 r) else None
            | [] \<Rightarrow> None) of
        Some m \<Rightarrow> Some m
      | None \<Rightarrow> map_option (\<lambda>nl. ([], nl)) (match_group2 s))"

lemma match_group2_length: "match_group2 s = Some nl \<Longrightarrow> 0 < length nl \<and> length nl \<le> length s"
  by (cases s; cases "tl s") (auto simp: match_group2_def split: if_splits)

lemma match_here_length:
  "match_here s = Some (g1, g2) \<Longrightarrow> 0 < length g1 + length g2 \<and> length g1 + length g2 \<le> length s"
  by (cases s) (auto simp: match_here_def split: option.splits if_splits dest: match_group2_length)

lemma match_here_shorter:
  "match_here s = Some (g1, g2) \<Longrightarrow> length s - (length g1 + length g2) < length s"
  using match_here_length [of s g1 g2] by linarith

text \<open>
  \<^verbatim>\<open>String.prototype.replace\<close> with the \<^verbatim>\<open>g\<close> flag and the replacement
  \<^verbatim>\<open>"$1" + "<br />" + "$2"\<close>: the text is scanned from the left; where the expression
  matches, the replacement is written and the scan goes on after the match; where it
  does not, the character is copied and the scan moves one character on.
\<close>

function replace_all :: "string \<Rightarrow> string" where
  "replace_all s =
     (case match_here s of
        Some (g1, g2) \<Rightarrow> g1 @ ''<br />'' @ g2 @ replace_all (drop (length g1 + length g2) s)
      | None \<Rightarrow> (case s of [] \<Rightarrow> [] | c # r \<Rightarrow> c # replace_all r))"
  by pat_completeness auto
termination
  by (relation "measure length") (auto simp: match_here_shorter)

declare replace_all.simps [simp del]

definition newlineToBr :: "jsval \<Rightarrow> string" where
  "newlineToBr data = replace_all (to_string data)"

subsection \<open>Formatting a payload\<close>

definition taskComplete :: string where "taskComplete = ''complete''"
definition taskRunning :: string where "taskRunning = ''running''"

definition formatTaskCompletePayload :: "jsval \<Rightarrow> string" where
  "formatTaskCompletePayload payload =
     ''<img src='' @ [CHR 0x27] @ ''data:image/jpeg;base64,'' @ to_string payload @ [CHR 0x27] @ '' />''"

text \<open>The \<^verbatim>\<open>switch\<close> compares with strict equality.\<close>

definition formatPayload :: "jsval \<Rightarrow> jsval \<Rightarrow> string" where
  "formatPayload status payload =
     (if strict_eq_str status taskComplete then formatTaskCompletePayload payload
      else newlineToBr payload)"

subsection \<open>Elapsed time: \<^verbatim>\<open>_getDeltaSeconds\<close>\<close>

text \<open>
  A \<^verbatim>\<open>Date\<close> is its time value, an integral number of milliseconds
  (\<^verbatim>\<open>getTime()\<close>); \<^verbatim>\<open>null\<close> is \<open>None\<close>. The difference of two time values
  is exact in double precision as long as it is below \<open>2^53\<close> in magnitude, which two
  readings of a clock always are.

  The quotient \<^verbatim>\<open>d / 1000\<close> is a double: the binary fraction \<open>m / 2^k\<close> with a
  53-bit numerator \<open>m\<close> nearest to the exact quotient, ties to the even numerator
  (IEEE 754 round-to-nearest-even). \<open>norm_shift a k\<close> finds the exponent: the least
  \<open>k\<close> from which \<open>a * 2^k div 1000\<close> has 53 bits.
\<close>

function norm_shift :: "nat \<Rightarrow> nat \<Rightarrow> nat" where
  "norm_shift a k =
     (if a = 0 \<or> 1000 * 2 ^ 52 \<le> a * 2 ^ k then k else norm_shift a (Suc k))"
  by pat_completeness auto

lemma norm_shift_bound:
  fixes a k :: nat
  assumes "a \<noteq> 0" "\<not> (1000 * 2 ^ 52 \<le> a * 2 ^ k)"
  shows "k < 62"
proof (rule ccontr)
  assume "\<not> k < 62"
  then have "(2::nat) ^ 62 \<le> 2 ^ k" by (intro power_increasing) auto
  then have "(4611686018427387904::nat) \<le> 2 ^ k" by simp
  moreover have "(2::nat) ^ k \<le> a * 2 ^ k" using assms(1) by simp
  moreover have "\<not> (4503599627370496000 \<le> a * 2 ^ k)" using assms(2) by simp
  ultimately show False by linarith
qed

termination norm_shift
proof (relation "measure (\<lambda>(a, k). 62 - k)")
  show "wf (measure (\<lambda>(a, k). 62 - k))" by simp
next
  fix a k :: nat
  assume "\<not> (a = 0 \<or> 1000 * 2 ^ 52 \<le> a * 2 ^ k)"
  then have "k < 62" using norm_shift_bound [of a k] by blast
  then show "((a, Suc k), (a, k)) \<in> measure (\<lambda>(a, k). 62 - k)" by simp
qed

declare norm_shift.simps [simp del]

text \<open>
  \<open>fdiv1000 a\<close> is the double \<^verbatim>\<open>a / 1000\<close> for an integer \<open>0 \<le> a\<close>, as the pair
  \<open>(m, k)\<close> that stands for \<open>m / 2^k\<close>.
\<close>

definition fdiv1000 :: "nat \<Rightarrow> nat \<times> nat" where
  "fdiv1000 a =
     (let k = norm_shift a 0;
          q = (a * 2 ^ k) div 1000;
          r = (a * 2 ^ k) mod 1000
      in (if r < 500 \<or> (r = 500 \<and> even q) then q else q + 1, k))"

text \<open>
  \<^verbatim>\<open>Number.prototype.toFixed(1)\<close> of a double \<open>x = m / 2^k \<ge> 0\<close>: the integer \<open>n\<close>
  for which \<open>n / 10 - x\<close> is as close to zero as possible, the larger \<open>n\<close> when there
  are two; that is \<open>\<lfloor>10 * x + 1/2\<rfloor>\<close>. The result is the number of tenths; the
  string is its decimal expansion with one digit after the point.
\<close>

definition toFixed1 :: "nat \<times> nat \<Rightarrow> nat" where
  "toFixed1 x = (case x of (m, k) \<Rightarrow> (20 * m + 2 ^ k) div 2 ^ (k + 1))"

text \<open>
  What \<^verbatim>\<open>_getDeltaSeconds\<close> returns: the number \<^verbatim>\<open>0\<close>, or the string of
  \<^verbatim>\<open>toFixed(1)\<close>, kept as its sign (\<^verbatim>\<open>toFixed\<close> writes \<^verbatim>\<open>-\<close> when the
  number is below zero) and its number of tenths.
\<close>

datatype delta = Number0 | Fixed1 bool nat

definition getDeltaSeconds :: "int option \<Rightarrow> int \<Rightarrow> delta" where
  "getDeltaSeconds from to =
     (case from of
        None \<Rightarrow> Number0
      | Some f \<Rightarrow> Fixed1 (to - f < 0) (toFixed1 (fdiv1000 (nat \<bar>to - f\<bar>))))"

text \<open>
  The value of a \<open>delta\<close> in tenths of a second, which is what the comparison
  \<^verbatim>\<open>delta > module._runPollingTimeoutSec\<close> sees after converting the string to a
  number.
\<close>

fun delta_tenths :: "delta \<Rightarrow> int" where
  "delta_tenths Number0 = 0"
| "delta_tenths (Fixed1 neg n) = (if neg then - int n else int n)"

definition delta_gt :: "delta \<Rightarrow> int \<Rightarrow> bool" where
  "delta_gt d secs = (delta_tenths d > 10 * secs)"

text \<open>Decimal digits, for the text of a \<open>delta\<close> in the status line.\<close>

fun digits :: "nat \<Rightarrow> string" where
  "digits n =
     (if n < 10 then [''0123456789'' ! n]
      else digits (n div 10) @ [''0123456789'' ! (n mod 10)])"

declare digits.simps [simp del]

fun delta_text :: "delta \<Rightarrow> string" where
  "delta_text Number0 = ''0''"
| "delta_text (Fixed1 neg n) =
     (if neg then ''-'' else []) @ digits (n div 10) @ ''.'' @ digits (n mod 10)"

subsection \<open>The state: the module object, the window, the page and the network\<close>

text \<open>
  The callback of an interval is a closure: the polling loop's closes over the ticket
  (\<^verbatim>\<open>function() { module._getRunResults(ticket); }\<close>), the status line's over
  the prefix of the text.
\<close>

datatype timer_callback = PollRun jsval | StatusUpdate string

text \<open>The \<^verbatim>\<open>success\<close> and \<^verbatim>\<open>error\<close> callbacks handed to \<^verbatim>\<open>$.ajax\<close>.\<close>

datatype handler =
    OnProjectGetSuccess | OnProjectGetError
  | OnRunGetSuccess | OnRunGetError
  | OnProjectPostSuccess | OnProjectPostError

text \<open>
  The text \<^verbatim>\<open>JSON.stringify\<close> writes, as the JSON value it denotes. A field whose
  value is \<^verbatim>\<open>undefined\<close> is left out of an object.
\<close>

datatype json =
    JsonNull | JsonBool bool | JsonString string
  | JsonArray "json list" | JsonObject "(string \<times> json) list"

fun json_of :: "jsval \<Rightarrow> json option" where
  "json_of JUndefined = None"
| "json_of JNull = Some JsonNull"
| "json_of (JBool b) = Some (JsonBool b)"
| "json_of (JStr s) = Some (JsonString s)"

text \<open>A field of the module that is \<^verbatim>\<open>null\<close> or a string.\<close>

fun json_of_nullable :: "string option \<Rightarrow> json" where
  "json_of_nullable None = JsonNull"
| "json_of_nullable (Some s) = JsonString s"

fun string_of_nullable :: "string option \<Rightarrow> string" where
  "string_of_nullable None = ''null''"
| "string_of_nullable (Some s) = s"

definition stringify_object :: "(string \<times> json option) list \<Rightarrow> json" where
  "stringify_object fs =
     JsonObject (List.map_filter (\<lambda>(k, v). map_option (Pair k) v) fs)"

record ajax =
  ajax_url :: string
  ajax_crossDomain :: bool
  ajax_type :: string
  ajax_request :: json
  ajax_dataType :: string
  ajax_success :: handler
  ajax_error :: handler

text \<open>The \<^verbatim>\<open>xhr\<close> object, as far as the callbacks read it.\<close>

record xhr =
  xhr_status :: int
  responseText :: string
  responseJSON :: jsval

text \<open>
  The parsed body \<^verbatim>\<open>data\<close> of a response: \<^verbatim>\<open>undefined\<close> or \<^verbatim>\<open>null\<close> (reading
  \<^verbatim>\<open>data.payload\<close> throws); an object whose \<^verbatim>\<open>payload\<close> is \<^verbatim>\<open>undefined\<close> or
  \<^verbatim>\<open>null\<close> (reading a field of the payload throws); or an object with its payload
  object, of which the callbacks read the fields. A field the payload does not have
  reads as \<^verbatim>\<open>undefined\<close>.
\<close>

datatype 'p response = No_data | No_payload | Payload 'p

record poll_payload =
  p_status :: jsval
  p_payload :: jsval

record project_payload =
  pp_filename :: string
  pp_projectName :: string
  pp_contents :: string

datatype exn = TypeError

record client =
  editorFile :: "string option"
  projectName :: "string option"
  statusUpdateIntervalId :: "nat option"
  statusUpdateIntervalStart :: "int option"
  runPayload :: jsval
  runPollingIntervalId :: "nat option"
  runStart :: "int option"
  runTicket :: jsval
  timers :: "(nat \<times> nat \<times> timer_callback) list"
  next_timer_id :: nat
  console :: "string list"
  location_href :: string
  location_search :: string
  status_text :: string
  result_children :: "string list"
  control_classes :: "string set"
  click_handlers :: nat
  contents_shown :: bool
  error_shown :: bool
  loading_shown :: bool
  error_children :: "string list"
  filename_text :: "string option"
  editor_value :: string
  editor_mode :: string
  editor_theme :: string
  editor_fontSize :: nat
  requests :: "ajax list"

text \<open>
  The first eight fields are the mutable fields of the module object. \<open>timers\<close> are the
  active intervals of \<^verbatim>\<open>window\<close> (handle, period in milliseconds, callback) and
  \<open>next_timer_id\<close> the next handle \<^verbatim>\<open>setInterval\<close> returns: handles are positive and
  never handed out twice. \<open>result_children\<close> and \<open>error_children\<close> are the HTML appended
  to \<^verbatim>\<open>#result\<close> and \<^verbatim>\<open>#error\<close>, \<open>click_handlers\<close> the number of times
  \<^verbatim>\<open>_onRunControlClick\<close> is attached to \<^verbatim>\<open>#run-control\<close>, \<open>requests\<close> the AJAX
  requests sent so far, oldest first. The state of a freshly loaded page is \<open>initial\<close>:
  the module's fields as the script sets them, no timer, no request; the address of
  the page and the classes of \<^verbatim>\<open>#run-control\<close> come from the page.
\<close>

definition statusUpdateIntervalMsec :: nat where "statusUpdateIntervalMsec = 50"
definition runPollingIntervalMsec :: nat where "runPollingIntervalMsec = 3000"
definition runPollingTimeoutSec :: int where "runPollingTimeoutSec = 90"

definition initial :: "string \<Rightarrow> string \<Rightarrow> string set \<Rightarrow> client" where
  "initial href search classes =
     \<lparr> editorFile = None, projectName = None,
       statusUpdateIntervalId = None, statusUpdateIntervalStart = None,
       runPayload = JNull, runPollingIntervalId = None, runStart = None, runTicket = JNull,
       timers = [], next_timer_id = 1, console = [],
       location_href = href, location_search = search,
       status_text = [], result_children = [], control_classes = classes,
       click_handlers = 0, contents_shown = False, error_shown = False,
       loading_shown = True, error_children = [], filename_text = None,
       editor_value = [], editor_mode = [], editor_theme = [], editor_fontSize = 0,
       requests = [] \<rparr>"

subsection \<open>The window's timers\<close>

definition setInterval :: "timer_callback \<Rightarrow> nat \<Rightarrow> client \<Rightarrow> nat \<times> client" where
  "setInterval cb msec s =
     (next_timer_id s,
      s\<lparr> timers := timers s @ [(next_timer_id s, msec, cb)],
         next_timer_id := Suc (next_timer_id s) \<rparr>)"

text \<open>\<^verbatim>\<open>clearTimeout\<close> also clears an interval; a \<^verbatim>\<open>null\<close> handle clears nothing.\<close>

definition clearTimeout :: "nat option \<Rightarrow> client \<Rightarrow> client" where
  "clearTimeout h s =
     (case h of None \<Rightarrow> s
      | Some i \<Rightarrow> s\<lparr> timers := filter (\<lambda>t. fst t \<noteq> i) (timers s) \<rparr>)"

subsection \<open>The functions of the module that write the page\<close>

definition addResult :: "string \<Rightarrow> client \<Rightarrow> client" where
  "addResult data s = s\<lparr> result_children := result_children s @ [data] \<rparr>"

definition clearResult :: "client \<Rightarrow> client" where
  "clearResult s = s\<lparr> result_children := [] \<rparr>"

definition clearRun :: "client \<Rightarrow> client" where
  "clearRun s = s\<lparr> runPayload := JNull, runTicket := JNull \<rparr>"

definition setEditorContents :: "string \<Rightarrow> client \<Rightarrow> client" where
  "setEditorContents data s = s\<lparr> editor_value := data \<rparr>"

definition setError :: "string \<Rightarrow> client \<Rightarrow> client" where
  "setError data s = s\<lparr> error_children := [data] \<rparr>"

definition setFilename :: "string option \<Rightarrow> client \<Rightarrow> client" where
  "setFilename data s = s\<lparr> filename_text := data \<rparr>"

definition setStatus :: "string \<Rightarrow> client \<Rightarrow> client" where
  "setStatus data s = s\<lparr> status_text := data \<rparr>"

definition setUiStateInitialLoadFailed :: "client \<Rightarrow> client" where
  "setUiStateInitialLoadFailed s =
     s\<lparr> click_handlers := 0, contents_shown := False, error_shown := True,
        loading_shown := False \<rparr>"

definition setUiStateReady :: "client \<Rightarrow> client" where
  "setUiStateReady s =
     s\<lparr> click_handlers := Suc (click_handlers s), contents_shown := True,
        error_shown := False, loading_shown := False \<rparr>"

subsection \<open>The status line's interval\<close>

definition stopStatusUpdates :: "client \<Rightarrow> client" where
  "stopStatusUpdates s =
     (clearTimeout (statusUpdateIntervalId s) s)
       \<lparr> statusUpdateIntervalId := None, statusUpdateIntervalStart := None \<rparr>"

definition startStatusUpdates :: "int \<Rightarrow> client \<Rightarrow> client" where
  "startStatusUpdates now s =
     (if statusUpdateIntervalId s \<noteq> None then s
      else
        let s1 = s\<lparr> statusUpdateIntervalStart := Some now \<rparr>;
            prefix = ''Started run of '' @ string_of_nullable (projectName s1);
            s2 = setStatus (prefix @ '' (0.0s)'') s1;
            (h, s3) = setInterval (StatusUpdate prefix) statusUpdateIntervalMsec s2
        in s3\<lparr> statusUpdateIntervalId := Some h \<rparr>)"

text \<open>The callback of that interval, run at the time \<open>now\<close>.\<close>

definition statusUpdateTick :: "string \<Rightarrow> int \<Rightarrow> client \<Rightarrow> client" where
  "statusUpdateTick prefix now s =
     setStatus
       (prefix @ '' ('' @ delta_text (getDeltaSeconds (statusUpdateIntervalStart s) now) @ ''s)'') s"

definition setUiStateRunning :: "int \<Rightarrow> client \<Rightarrow> client" where
  "setUiStateRunning now s =
     (let s1 = s\<lparr> control_classes :=
                     insert ''glyphicon-repeat''
                       (insert ''control-running'' (control_classes s - {''glyphicon-play''})) \<rparr>;
          s2 = s1\<lparr> click_handlers := 0 \<rparr>
      in startStatusUpdates now (clearResult s2))"

text \<open>\<open>optPayload\<close> is \<open>None\<close> when the argument is \<^verbatim>\<open>undefined\<close>.\<close>

definition setUiStateRunDone :: "string \<Rightarrow> string option \<Rightarrow> client \<Rightarrow> client" where
  "setUiStateRunDone status optPayload s =
     (let s1 = stopStatusUpdates s;
          s2 = s1\<lparr> control_classes :=
                      insert ''glyphicon-play'' (control_classes s1)
                        - {''control-running''} - {''glyphicon-repeat''} \<rparr>;
          s3 = s2\<lparr> click_handlers := Suc (click_handlers s2) \<rparr>;
          s4 = setStatus status (clearResult s3)
      in case optPayload of
           None \<Rightarrow> s4
         | Some payload \<Rightarrow> addResult (payload @ ''<br />'') s4)"

subsection \<open>The polling loop\<close>

definition stopPolling :: "client \<Rightarrow> client" where
  "stopPolling s =
     (clearTimeout (runPollingIntervalId s) s)
       \<lparr> runPollingIntervalId := None, runStart := None \<rparr>"

definition startPolling :: "jsval \<Rightarrow> int \<Rightarrow> client \<Rightarrow> client" where
  "startPolling ticket now s =
     (if runPollingIntervalId s \<noteq> None
      then s\<lparr> console := console s @ [''non-null polling id''] \<rparr>
      else
        let s1 = s\<lparr> runStart := Some now \<rparr>;
            (h, s2) = setInterval (PollRun ticket) runPollingIntervalMsec s1
        in s2\<lparr> runPollingIntervalId := Some h \<rparr>)"

definition run_status_request :: "jsval \<Rightarrow> ajax" where
  "run_status_request ticket =
     \<lparr> ajax_url = ''/rest/balancer/v1'', ajax_crossDomain = True, ajax_type = ''GET'',
       ajax_request = stringify_object [(''ticket'', json_of ticket)],
       ajax_dataType = ''json'',
       ajax_success = OnRunGetSuccess, ajax_error = OnRunGetError \<rparr>"

definition getRunResults :: "jsval \<Rightarrow> int \<Rightarrow> client \<Rightarrow> client" where
  "getRunResults ticket now s =
     (let delta = getDeltaSeconds (runStart s) now in
      if delta_gt delta runPollingTimeoutSec
      then setUiStateRunDone ''Ready'' (Some ''Run timed out.'') (stopPolling s)
      else s\<lparr> requests := requests s @ [run_status_request ticket] \<rparr>)"

definition onRunGetError :: "client \<Rightarrow> client" where
  "onRunGetError s =
     setUiStateRunDone ''Ready'' (Some ''Error fetching results; please try again.'')
       (clearRun (stopPolling s))"

text \<open>
  In the branch for a status other than 200 the arguments of the call are evaluated
  first: \<^verbatim>\<open>status\<close> is the function's own hoisted variable, still
  \<^verbatim>\<open>undefined\<close>, and \<^verbatim>\<open>data.payload\<close> throws when there is no \<^verbatim>\<open>data\<close>. With
  status 200 and no payload object the function has already stopped polling and
  cleared the run when \<^verbatim>\<open>data.payload.status\<close> throws.
\<close>

definition onRunGetSuccess :: "poll_payload response \<Rightarrow> xhr \<Rightarrow> client \<Rightarrow> exn option \<times> client" where
  "onRunGetSuccess data x s =
     (if xhr_status x \<noteq> 200
      then (case data of No_data \<Rightarrow> (Some TypeError, s) | _ \<Rightarrow> (None, onRunGetError s))
      else
        case data of
          No_data \<Rightarrow> (Some TypeError, s)
        | No_payload \<Rightarrow> (Some TypeError, clearRun (stopPolling s))
        | Payload p \<Rightarrow>
            if strict_eq_str (p_status p) taskRunning then (None, s)
            else
              let s1 = clearRun (stopPolling s);
                  payload = formatPayload (p_status p) (p_payload p);
                  status = ''Finished run of '' @ string_of_nullable (projectName s1)
                             @ ''. Status: '' @ to_string (p_status p) @ ''. Result: ''
              in (None, setUiStateRunDone status (Some payload) s1))"

subsection \<open>Loading the project\<close>

text \<open>\<^verbatim>\<open>String.prototype.split\<close> with a separator of one character.\<close>

fun split_on :: "char \<Rightarrow> string \<Rightarrow> string list" where
  "split_on sep [] = [[]]"
| "split_on sep (c # r) =
     (if c = sep then [] # split_on sep r
      else case split_on sep r of p # ps \<Rightarrow> (c # p) # ps | [] \<Rightarrow> [[c]])"

text \<open>\<^verbatim>\<open>String.prototype.indexOf\<close>: the first position where the needle starts.\<close>

fun indexOf :: "string \<Rightarrow> string \<Rightarrow> nat option" where
  "indexOf needle [] = (if needle = [] then Some 0 else None)"
| "indexOf needle (c # r) =
     (if take (length needle) (c # r) = needle then Some 0
      else map_option Suc (indexOf needle r))"

text \<open>Reading \<^verbatim>\<open>module._editorFile.indexOf\<close> throws while the field is \<^verbatim>\<open>null\<close>.\<close>

definition getEditorMode :: "client \<Rightarrow> exn + string" where
  "getEditorMode s =
     (case editorFile s of
        None \<Rightarrow> Inl TypeError
      | Some f \<Rightarrow>
          let parts = (if indexOf ''.'' f \<noteq> None then split_on (CHR ''.'') f else [''text''])
          in Inr (''ace/mode/'' @ last parts))"

definition configureEditor :: "client \<Rightarrow> exn option \<times> client" where
  "configureEditor s =
     (let s1 = s\<lparr> editor_fontSize := 14 \<rparr>;
          s2 = s1\<lparr> editor_theme := ''ace/theme/monokai'' \<rparr>
      in case getEditorMode s2 of
           Inl e \<Rightarrow> (Some e, s2)
         | Inr m \<Rightarrow> (None, s2\<lparr> editor_mode := m \<rparr>))"

definition getFilename :: "string \<Rightarrow> string \<Rightarrow> string option" where
  "getFilename filename project =
     (case indexOf project filename of None \<Rightarrow> None | Some i \<Rightarrow> Some (drop i filename))"

definition onProjectGetError :: "client \<Rightarrow> client" where
  "onProjectGetError s =
     setUiStateInitialLoadFailed
       (setError
          (''<p>Unable to get application data. <a href='' @ [CHR 0x27] @ location_href s
             @ [CHR 0x27] @ ''>Try again?'' @ ''</a>'') s)"

definition onProjectGetSuccess ::
  "project_payload response \<Rightarrow> xhr \<Rightarrow> client \<Rightarrow> exn option \<times> client" where
  "onProjectGetSuccess data x s =
     (if xhr_status x \<noteq> 200
      then (case data of No_data \<Rightarrow> (Some TypeError, s) | _ \<Rightarrow> (None, onProjectGetError s))
      else
        case data of
          Payload p \<Rightarrow>
            let s1 = s\<lparr> editorFile := Some (pp_filename p) \<rparr>;
                s2 = s1\<lparr> projectName := Some (pp_projectName p) \<rparr>;
                s3 = setFilename (getFilename (pp_filename p) (pp_projectName p)) s2
            in (case configureEditor s3 of
                  (Some e, s4) \<Rightarrow> (Some e, s4)
                | (None, s4) \<Rightarrow> (None, setUiStateReady (setEditorContents (pp_contents p) s4)))
        | _ \<Rightarrow> (Some TypeError, s))"

text \<open>
  \<^verbatim>\<open>_getUrlArgs\<close>: every component of the query must hold an \<^verbatim>\<open>=\<close>, or
  \<^verbatim>\<open>i[1].toString()\<close> throws; a later component overwrites an earlier one of the same
  name.
\<close>

fun parse_queries :: "string list \<Rightarrow> (string \<rightharpoonup> string) \<Rightarrow> exn + (string \<rightharpoonup> string)" where
  "parse_queries [] queries = Inr queries"
| "parse_queries (query # rest) queries =
     (case split_on (CHR ''='') query of
        k # v # _ \<Rightarrow> parse_queries rest (queries(k \<mapsto> v))
      | _ \<Rightarrow> Inl TypeError)"

definition getUrlArgs :: "client \<Rightarrow> exn + (string \<rightharpoonup> string)" where
  "getUrlArgs s = parse_queries (split_on (CHR ''&'') (drop 1 (location_search s))) Map.empty"

definition getProjectNameFromUrl :: "client \<Rightarrow> exn + jsval" where
  "getProjectNameFromUrl s =
     (case getUrlArgs s of
        Inl e \<Rightarrow> Inl e
      | Inr queries \<Rightarrow> Inr (case queries ''project'' of None \<Rightarrow> JUndefined | Some v \<Rightarrow> JStr v))"

fun truthy :: "jsval \<Rightarrow> bool" where
  "truthy JUndefined = False"
| "truthy JNull = False"
| "truthy (JBool b) = b"
| "truthy (JStr s) = (s \<noteq> [])"

definition main :: "jsval \<Rightarrow> client \<Rightarrow> exn option \<times> client" where
  "main optProjectName s =
     (case (if truthy optProjectName then Inr optProjectName else getProjectNameFromUrl s) of
        Inl e \<Rightarrow> (Some e, s)
      | Inr project \<Rightarrow>
          (None,
           s\<lparr> requests := requests s @
                [\<lparr> ajax_url = ''/rest/balancer/v1/project'', ajax_crossDomain = True,
                   ajax_type = ''GET'',
                   ajax_request = stringify_object [(''project'', json_of project)],
                   ajax_dataType = ''json'',
                   ajax_success = OnProjectGetSuccess, ajax_error = OnProjectGetError \<rparr>] \<rparr>))"

subsection \<open>Starting a run\<close>

definition makePatch :: "string option \<Rightarrow> string \<Rightarrow> json" where
  "makePatch filename contents =
     JsonObject [(''contents'', JsonString contents), (''filename'', json_of_nullable filename)]"

definition onRunControlClick :: "int \<Rightarrow> client \<Rightarrow> client" where
  "onRunControlClick now s =
     (let s1 = setUiStateRunning now s in
      s1\<lparr> requests := requests s1 @
            [\<lparr> ajax_url = ''/rest/balancer/v1'', ajax_crossDomain = True,
               ajax_type = ''POST'',
               ajax_request =
                 stringify_object
                   [(''patches'', Some (JsonArray [makePatch (editorFile s1) (editor_value s1)])),
                    (''project'', Some (json_of_nullable (projectName s1))),
                    (''user_id'', Some (JsonString ''some_user''))],
               ajax_dataType = ''json'',
               ajax_success = OnProjectPostSuccess, ajax_error = OnProjectPostError \<rparr>] \<rparr>)"

text \<open>
  \<^verbatim>\<open>xhr.responseText && xhr.responseJSON === "Worker locked"\<close>: a non-empty body
  whose JSON is that string.
\<close>

definition onProjectPostError :: "xhr \<Rightarrow> client \<Rightarrow> client" where
  "onProjectPostError x s =
     (let payload =
            (if responseText x \<noteq> [] \<and> strict_eq_str (responseJSON x) ''Worker locked''
             then ''All workers busy; please try again later.''
             else ''Unable to start job.'')
      in setUiStateRunDone ''Ready'' (Some payload) s)"

text \<open>The payload of a created task, as far as the client reads it: its ticket.\<close>

definition onProjectPostSuccess :: "jsval response \<Rightarrow> xhr \<Rightarrow> int \<Rightarrow> client \<Rightarrow> exn option \<times> client" where
  "onProjectPostSuccess data x now s =
     (if xhr_status x \<noteq> 200
      then (case data of No_data \<Rightarrow> (Some TypeError, s) | _ \<Rightarrow> (None, onProjectPostError x s))
      else
        case data of
          Payload ticket \<Rightarrow> (None, startPolling ticket now s)
        | _ \<Rightarrow> (Some TypeError, s))"

subsection \<open>Operations and events\<close>

text \<open>
  Every function of the module that touches the state, with its arguments. The getters
  of page elements and the pure helpers (\<^verbatim>\<open>_getDeltaSeconds\<close>, \<^verbatim>\<open>_formatPayload\<close>,
  \<^verbatim>\<open>_makePatch\<close>, \<^verbatim>\<open>_newlineToBr\<close>, \<^verbatim>\<open>_getFilename\<close>) change nothing. Where a
  function reads the clock (\<^verbatim>\<open>new Date()\<close>), the reading is an argument.
\<close>

datatype call =
    Call_main jsval
  | Call_addResult string
  | Call_clearResult
  | Call_clearRun
  | Call_configureEditor
  | Call_getRunResults jsval int
  | Call_onRunGetError
  | Call_onRunGetSuccess "poll_payload response" xhr
  | Call_onProjectGetError
  | Call_onProjectGetSuccess "project_payload response" xhr
  | Call_onProjectPostError xhr
  | Call_onProjectPostSuccess "jsval response" xhr int
  | Call_onRunControlClick int
  | Call_setEditorContents string
  | Call_setError string
  | Call_setFilename "string option"
  | Call_setStatus string
  | Call_setUiStateInitialLoadFailed
  | Call_setUiStateReady
  | Call_setUiStateRunning int
  | Call_setUiStateRunDone string "string option"
  | Call_startPolling jsval int
  | Call_stopPolling
  | Call_startStatusUpdates int
  | Call_stopStatusUpdates

text \<open>
  A call that throws ends there; what it wrote before stays written.
\<close>

fun exec :: "call \<Rightarrow> client \<Rightarrow> client" where
  "exec (Call_main opt) s = snd (main opt s)"
| "exec (Call_addResult data) s = addResult data s"
| "exec Call_clearResult s = clearResult s"
| "exec Call_clearRun s = clearRun s"
| "exec Call_configureEditor s = snd (configureEditor s)"
| "exec (Call_getRunResults ticket now) s = getRunResults ticket now s"
| "exec Call_onRunGetError s = onRunGetError s"
| "exec (Call_onRunGetSuccess data x) s = snd (onRunGetSuccess data x s)"
| "exec Call_onProjectGetError s = onProjectGetError s"
| "exec (Call_onProjectGetSuccess data x) s = snd (onProjectGetSuccess data x s)"
| "exec (Call_onProjectPostError x) s = onProjectPostError x s"
| "exec (Call_onProjectPostSuccess data x now) s = snd (onProjectPostSuccess data x now s)"
| "exec (Call_onRunControlClick now) s = onRunControlClick now s"
| "exec (Call_setEditorContents data) s = setEditorContents data s"
| "exec (Call_setError data) s = setError data s"
| "exec (Call_setFilename data) s = setFilename data s"
| "exec (Call_setStatus data) s = setStatus data s"
| "exec Call_setUiStateInitialLoadFailed s = setUiStateInitialLoadFailed s"
| "exec Call_setUiStateReady s = setUiStateReady s"
| "exec (Call_setUiStateRunning now) s = setUiStateRunning now s"
| "exec (Call_setUiStateRunDone status optPayload) s = setUiStateRunDone status optPayload s"
| "exec (Call_startPolling ticket now) s = startPolling ticket now s"
| "exec Call_stopPolling s = stopPolling s"
| "exec (Call_startStatusUpdates now) s = startStatusUpdates now s"
| "exec Call_stopStatusUpdates s = stopStatusUpdates s"

text \<open>
  What the browser does to the module: it runs a function of the module (the page's
  script, an AJAX callback), it fires the interval with a given handle at a given time
  (nothing happens when no interval has that handle), it delivers a click on
  \<^verbatim>\<open>#run-control\<close> to every handler attached when the click arrives, or the user
  edits the text in the editor.
\<close>

datatype event =
    Invoke call
  | TimerFires nat int
  | Click int
  | UserEdits string

definition timer_lookup :: "nat \<Rightarrow> client \<Rightarrow> (nat \<times> timer_callback) option" where
  "timer_lookup h s = map_of (timers s) h"

fun step :: "event \<Rightarrow> client \<Rightarrow> client" where
  "step (Invoke c) s = exec c s"
| "step (TimerFires h now) s =
     (case timer_lookup h s of
        None \<Rightarrow> s
      | Some (msec, PollRun ticket) \<Rightarrow> getRunResults ticket now s
      | Some (msec, StatusUpdate prefix) \<Rightarrow> statusUpdateTick prefix now s)"
| "step (Click now) s = (onRunControlClick now ^^ click_handlers s) s"
| "step (UserEdits v) s = s\<lparr> editor_value := v \<rparr>"

definition run :: "event list \<Rightarrow> client \<Rightarrow> client" where
  "run es s = foldl (\<lambda>s e. step e s) s es"

subsection \<open>The invariant of the polling loop\<close>

fun is_poll :: "nat \<times> nat \<times> timer_callback \<Rightarrow> bool" where
  "is_poll (h, msec, PollRun ticket) = True"
| "is_poll (h, msec, StatusUpdate prefix) = False"

definition poll_timers :: "client \<Rightarrow> (nat \<times> nat \<times> timer_callback) list" where
  "poll_timers s = filter is_poll (timers s)"

text \<open>
  \<^verbatim>\<open>_runPollingIntervalId\<close> is the handle of the one polling interval that is
  active, or \<^verbatim>\<open>null\<close> when none is; \<^verbatim>\<open>_runStart\<close> is set exactly then.
\<close>

definition polling_inv :: "client \<Rightarrow> bool" where
  "polling_inv s =
     (case runPollingIntervalId s of
        None \<Rightarrow> poll_timers s = [] \<and> runStart s = None
      | Some h \<Rightarrow> map fst (poll_timers s) = [h] \<and> runStart s \<noteq> None)"

text \<open>
  What the window guarantees about handles, and what the module keeps of them: every
  active handle has been handed out (it is below \<open>next_timer_id\<close>), and the handle of
  the status line, while the module holds one, has been handed out and is not the
  handle of a polling interval.
\<close>

definition handles_inv :: "client \<Rightarrow> bool" where
  "handles_inv s =
     (list_all (\<lambda>t. fst t < next_timer_id s) (timers s) \<and>
      (case statusUpdateIntervalId s of
         None \<Rightarrow> True
       | Some h \<Rightarrow> h < next_timer_id s \<and> h \<notin> set (map fst (poll_timers s))))"

definition client_inv :: "client \<Rightarrow> bool" where
  "client_inv s = (polling_inv s \<and> handles_inv s)"

subsection \<open>What the specification says \<^verbatim>\<open>_newlineToBr\<close> does\<close>

text \<open>
  The specification's reading, to be compared with \<open>replace_all\<close>: the text is cut,
  from the left, into newline sequences (a pair \<^verbatim>\<open>\r\n\<close> or \<^verbatim>\<open>\n\r\<close> where there
  is one, else a single \<^verbatim>\<open>\r\<close> or \<^verbatim>\<open>\n\<close>) and single other characters, and
  \<^verbatim>\<open><br />\<close> is written before each newline sequence.
\<close>

definition is_newline_char :: "char \<Rightarrow> bool" where
  "is_newline_char c = (c = CR \<or> c = LF)"

fun newline_tokens :: "string \<Rightarrow> string list" where
  "newline_tokens (c # d # r) =
     (if (c = CR \<and> d = LF) \<or> (c = LF \<and> d = CR) then [c, d] # newline_tokens r
      else [c] # newline_tokens (d # r))"
| "newline_tokens [c] = [[c]]"
| "newline_tokens [] = []"

definition is_newline_seq :: "string \<Rightarrow> bool" where
  "is_newline_seq t = (t = [CR, LF] \<or> t = [LF, CR] \<or> t = [CR] \<or> t = [LF])"

definition br_before :: "string \<Rightarrow> string" where
  "br_before t = (if is_newline_seq t then ''<br />'' @ t else t)"

definition spec_newlineToBr :: "string \<Rightarrow> string" where
  "spec_newlineToBr s = concat (map br_before (newline_tokens s))"

section \<open>The worker's result store\<close>

text \<open>
  Modelled from the spec: the worker (\<^verbatim>\<open>android/worker.py\<close>) and the balancer are
  not among the sources; what follows is sections 3 to 5 of the specification. A
  worker holds a result store, one record per ticket, and a lock whose holder is the
  build-and-run unit in flight. The balancer issues tickets, each once, assigns the
  task to a worker and keeps the assignment in its registry. The only writers of a
  record are the accepting call and the background unit of its ticket; no watchdog
  runs on the worker, and the status Timeout is the client's own (4.4, 6 and 9), so no
  record ever holds it.
\<close>

datatype task_status = Created | Running | Complete | Error | Timeout

fun terminal :: "task_status \<Rightarrow> bool" where
  "terminal Complete = True"
| "terminal Error = True"
| "terminal Timeout = True"
| "terminal Created = False"
| "terminal Running = False"

record result_record =
  rr_status :: task_status
  rr_payload :: "string option"
  rr_writtenAt :: nat

record worker =
  store :: "(nat \<times> result_record) list"
  lock :: "nat option"

record system =
  workers :: "worker list"
  registry :: "(nat \<times> nat) list"
  next_ticket :: nat

datatype worker_error = WorkerBusy | UnknownTicket | NoWorkerAvailable

text \<open>Modelled from the spec: \<^verbatim>\<open>pollStatus\<close> is a pure read of the store (4.3).\<close>

definition pollStatus :: "worker \<Rightarrow> nat \<Rightarrow> worker_error + result_record" where
  "pollStatus w t = (case map_of (store w) t of None \<Rightarrow> Inl UnknownTicket | Some r \<Rightarrow> Inr r)"

text \<open>
  Modelled from the spec: \<^verbatim>\<open>submit\<close> (4.2). The lock is tried, never waited for;
  on success the initial record (Running, no payload) is written before the call
  returns, and the unit of the ticket holds the lock.
\<close>

definition submit :: "nat \<Rightarrow> nat \<Rightarrow> worker \<Rightarrow> worker_error + worker" where
  "submit t now w =
     (case lock w of
        Some holder \<Rightarrow> Inl WorkerBusy
      | None \<Rightarrow>
          Inr (w\<lparr> store := AList.update t
                     \<lparr> rr_status = Running, rr_payload = None, rr_writtenAt = now \<rparr> (store w),
                   lock := Some t \<rparr>))"

text \<open>
  Modelled from the spec: the background unit finishes (4.2, step 4). It writes the
  final record of its own ticket, Complete with the artifact or Error with the
  diagnostic, and releases the lock as its last action. \<open>ok\<close> tells which.
\<close>

definition finish :: "bool \<Rightarrow> string \<Rightarrow> nat \<Rightarrow> worker \<Rightarrow> worker" where
  "finish ok output now w =
     (case lock w of
        None \<Rightarrow> w
      | Some t \<Rightarrow>
          w\<lparr> store := AList.update t
                 \<lparr> rr_status = (if ok then Complete else Error), rr_payload = Some output,
                   rr_writtenAt = now \<rparr> (store w),
             lock := None \<rparr>)"

text \<open>
  Modelled from the spec: housekeeping (3 and 5). Records older than the retention
  period are removed, never one whose task is still Running.
\<close>

definition housekeeping :: "nat \<Rightarrow> nat \<Rightarrow> worker \<Rightarrow> worker" where
  "housekeeping retention now w =
     w\<lparr> store := filter (\<lambda>(t, r). rr_status r = Running \<or> now < rr_writtenAt r + retention)
                    (store w) \<rparr>"

text \<open>
  Modelled from the spec: \<^verbatim>\<open>createTask\<close> (4.4). The ticket is generated, the task
  forwarded to the worker the policy selected, and the registry row inserted when the
  worker accepted. A generated ticket is never generated again.
\<close>

definition createTask :: "nat \<Rightarrow> nat \<Rightarrow> system \<Rightarrow> (worker_error + nat \<times> nat) \<times> system" where
  "createTask wid now sys =
     (let t = next_ticket sys; sys1 = sys\<lparr> next_ticket := Suc t \<rparr> in
      if wid < length (workers sys)
      then (case submit t now (workers sys ! wid) of
              Inl e \<Rightarrow> (Inl e, sys1)
            | Inr w \<Rightarrow>
                (Inr (t, wid),
                 sys1\<lparr> workers := (workers sys)[wid := w],
                       registry := AList.update t wid (registry sys) \<rparr>))
      else (Inl NoWorkerAvailable, sys1))"

text \<open>Modelled from the spec: \<^verbatim>\<open>getStatus\<close> (4.4) relays the poll to the assigned worker.\<close>

definition getStatus :: "system \<Rightarrow> nat \<Rightarrow> worker_error + result_record" where
  "getStatus sys t =
     (case map_of (registry sys) t of
        None \<Rightarrow> Inl UnknownTicket
      | Some wid \<Rightarrow>
          if wid < length (workers sys) then pollStatus (workers sys ! wid) t
          else Inl UnknownTicket)"

text \<open>
  Modelled from the spec: everything that can happen to the system. A poll reads and
  changes nothing; the balancer may evict a registry row at any time.
\<close>

datatype sys_event =
    CreateTask nat nat
  | Finish nat bool string nat
  | Housekeeping nat nat nat
  | Poll nat nat
  | Evict nat

definition on_worker :: "nat \<Rightarrow> (worker \<Rightarrow> worker) \<Rightarrow> system \<Rightarrow> system" where
  "on_worker wid f sys =
     (if wid < length (workers sys)
      then sys\<lparr> workers := (workers sys)[wid := f (workers sys ! wid)] \<rparr> else sys)"

fun sys_step :: "sys_event \<Rightarrow> system \<Rightarrow> system" where
  "sys_step (CreateTask wid now) sys = snd (createTask wid now sys)"
| "sys_step (Finish wid ok output now) sys = on_worker wid (finish ok output now) sys"
| "sys_step (Housekeeping wid retention now) sys = on_worker wid (housekeeping retention now) sys"
| "sys_step (Poll wid t) sys = sys"
| "sys_step (Evict t) sys = sys\<lparr> registry := AList.delete t (registry sys) \<rparr>"

definition sys_run :: "sys_event list \<Rightarrow> system \<Rightarrow> system" where
  "sys_run es sys = foldl (\<lambda>s e. sys_step e s) sys es"

definition sys_initial :: "nat \<Rightarrow> system" where
  "sys_initial n =
     \<lparr> workers = replicate n \<lparr> store = [], lock = None \<rparr>, registry = [], next_ticket = 0 \<rparr>"

text \<open>
  The invariant of a worker under the tickets issued so far: a ticket has one record
  at most, every record is of an issued ticket, and the holder of the lock has a
  Running record.
\<close>

definition worker_inv :: "nat \<Rightarrow> worker \<Rightarrow> bool" where
  "worker_inv n w =
     (distinct (map fst (store w)) \<and>
      list_all (\<lambda>(t, r). t < n) (store w) \<and>
      (case lock w of
         None \<Rightarrow> True
       | Some t \<Rightarrow> (case map_of (store w) t of
                      None \<Rightarrow> False | Some r \<Rightarrow> rr_status r = Running)))"

definition sys_inv :: "system \<Rightarrow> bool" where
  "sys_inv sys = list_all (worker_inv (next_ticket sys)) (workers sys)"

section \<open>Auxiliary notions\<close>

text \<open>The part of the state the invariant of the client speaks about.\<close>

definition timer_view :: "client \<Rightarrow> nat option \<times> int option \<times> nat option \<times> (nat \<times> nat \<times> timer_callback) list \<times> nat" where
  "timer_view s = (runPollingIntervalId s, runStart s, statusUpdateIntervalId s, timers s, next_timer_id s)"

text \<open>
  The record \<open>r\<close> of ticket \<open>t\<close>, terminal, on a worker: still there unchanged, or
  collected. The ticket has been issued.
\<close>

definition kept :: "nat \<Rightarrow> result_record \<Rightarrow> nat \<Rightarrow> worker \<Rightarrow> bool" where
  "kept t r n w = (t < n \<and> terminal (rr_status r) \<and> (map_of (store w) t = Some r \<or> map_of (store w) t = None))"

definition sys_kept :: "nat \<Rightarrow> nat \<Rightarrow> result_record \<Rightarrow> system \<Rightarrow> bool" where
  "sys_kept wid t r sys = (wid < length (workers sys) \<and> kept t r (next_ticket sys) (workers sys ! wid))"

text \<open>
  A handle that has been handed out and is not active any more: no interval will ever
  have it again.
\<close>

definition retired :: "nat \<Rightarrow> client \<Rightarrow> bool" where
  "retired h s = (h < next_timer_id s \<and> h \<notin> set (map fst (timers s)))"

text \<open>
  The body of a create-task request: an object with the fields \<^verbatim>\<open>patches\<close>,
  \<^verbatim>\<open>project\<close> and \<^verbatim>\<open>user_id\<close>, in the order \<^verbatim>\<open>JSON.stringify\<close> writes them,
  whose \<^verbatim>\<open>patches\<close> is a list of one object with the fields \<^verbatim>\<open>contents\<close> and
  \<^verbatim>\<open>filename\<close>.
\<close>

definition json_fields :: "json \<Rightarrow> (string \<times> json) list" where
  "json_fields j = (case j of JsonObject fs \<Rightarrow> fs | _ \<Rightarrow> [])"

definition is_create_task :: "json \<Rightarrow> bool" where
  "is_create_task j =
     (map fst (json_fields j) = [''patches'', ''project'', ''user_id''] \<and>
      (case map_of (json_fields j) ''patches'' of
         Some (JsonArray [patch]) \<Rightarrow> map fst (json_fields patch) = [''contents'', ''filename'']
       | _ \<Rightarrow> False))"

definition posts_ok :: "client \<Rightarrow> bool" where
  "posts_ok s =
     list_all (\<lambda>r. ajax_type r = ''POST'' \<longrightarrow> is_create_task (ajax_request r)) (requests s)"

subsection \<open>A page, a project and a run, for the examples\<close>

text \<open>
  \<open>example_polling\<close> is the state of the page after the example project has loaded,
  the user has clicked \<^verbatim>\<open>#run-control\<close> at time 0 and the task has been created, with
  ticket \<^verbatim>\<open>t1\<close>, at time 1000 (lemma \<open>example_polling_reached\<close> below).
\<close>

definition ok200 :: xhr where
  "ok200 = \<lparr> xhr_status = 200, responseText = ''{}'', responseJSON = JNull \<rparr>"

definition example_page :: client where
  "example_page =
     initial ''http://host/demo?project=Example'' ''?project=Example'' {''glyphicon-play''}"

definition example_project :: project_payload where
  "example_project =
     \<lparr> pp_filename = ''/src/Example/a.xml'', pp_projectName = ''Example'',
       pp_contents = ''<x/>'' \<rparr>"

definition example_polling :: client where
  "example_polling =
     \<lparr> editorFile = Some ''/src/Example/a.xml'', projectName = Some ''Example'',
       statusUpdateIntervalId = Some 1, statusUpdateIntervalStart = Some 0,
       runPayload = JNull, runPollingIntervalId = Some 2, runStart = Some 1000,
       runTicket = JNull,
       timers = [(1, 50, StatusUpdate ''Started run of Example''),
                 (2, 3000, PollRun (JStr ''t1''))],
       next_timer_id = 3, console = [],
       location_href = ''http://host/demo?project=Example'',
       location_search = ''?project=Example'',
       status_text = ''Started run of Example (0.0s)'', result_children = [],
       control_classes = {''glyphicon-repeat'', ''control-running''},
       click_handlers = 0, contents_shown = True, error_shown = False,
       loading_shown = False, error_children = [],
       filename_text = Some ''Example/a.xml'', editor_value = ''<x/>'',
       editor_mode = ''ace/mode/xml'', editor_theme = ''ace/theme/monokai'',
       editor_fontSize = 14,
       requests =
         [\<lparr> ajax_url = ''/rest/balancer/v1'', ajax_crossDomain = True,
            ajax_type = ''POST'',
            ajax_request =
              JsonObject
                [(''patches'',
                  JsonArray
                    [JsonObject
                       [(''contents'', JsonString ''<x/>''),
                        (''filename'', JsonString ''/src/Example/a.xml'')]]),
                 (''project'', JsonString ''Example''),
                 (''user_id'', JsonString ''some_user'')],
            ajax_dataType = ''json'', ajax_success = OnProjectPostSuccess,
            ajax_error = OnProjectPostError \<rparr>] \<rparr>"

section \<open>Lemmas\<close>

subsection \<open>The regular expression against the specification's reading\<close>

lemma CR_neq_LF [simp]: "CR \<noteq> LF" "LF \<noteq> CR" "CR \<noteq> CHR ''>''" "LF \<noteq> CHR ''>''"
  by (simp_all add: CR_def LF_def)

lemma match_group2_Some:
  "match_group2 s = Some nl \<Longrightarrow>
     newline_tokens s = nl # newline_tokens (drop (length nl) s) \<and> is_newline_seq nl"
  by (cases s rule: newline_tokens.cases)
     (auto simp: match_group2_def is_newline_seq_def split: if_splits)

lemma match_group2_None:
  "match_group2 (c # r) = None \<Longrightarrow>
     newline_tokens (c # r) = [c] # newline_tokens r \<and> \<not> is_newline_char c"
  by (cases "c # r" rule: newline_tokens.cases)
     (auto simp: match_group2_def is_newline_char_def split: if_splits)

lemma group1_class_no_match: "group1_class c \<Longrightarrow> match_group2 (c # r) = None"
  by (auto simp: match_group2_def group1_class_def)

lemma br_before_char: "\<not> is_newline_char c \<Longrightarrow> br_before [c] = [c]"
  by (auto simp: br_before_def is_newline_seq_def is_newline_char_def)

lemma br_before_seq: "is_newline_seq nl \<Longrightarrow> br_before nl = ''<br />'' @ nl"
  by (simp add: br_before_def)

lemma replace_all_spec: "replace_all s = spec_newlineToBr s"
proof (induction s rule: length_induct)
  case (1 s)
  show ?case
  proof (cases "match_here s")
    case None
    show ?thesis
    proof (cases s)
      case Nil
      have "replace_all s = []"
        using None Nil by (subst replace_all.simps) simp
      then show ?thesis using Nil by (simp add: spec_newlineToBr_def)
    next
      case (Cons c r)
      with None have g2: "match_group2 (c # r) = None"
        by (auto simp: match_here_def split: option.splits if_splits)
      have ih: "replace_all r = spec_newlineToBr r" using 1 Cons by simp
      have "replace_all s = c # replace_all r"
        using None Cons by (subst replace_all.simps) simp
      then show ?thesis
        using match_group2_None [OF g2] ih Cons
        by (simp add: spec_newlineToBr_def br_before_char)
    qed
  next
    case (Some m)
    obtain g1 g2 where m: "m = (g1, g2)" by (cases m)
    have len: "length (drop (length g1 + length g2) s) < length s"
      using match_here_shorter [of s g1 g2] Some m by simp
    have ih: "replace_all (drop (length g1 + length g2) s)
                = spec_newlineToBr (drop (length g1 + length g2) s)"
      using 1 len by blast
    have unf: "replace_all s = g1 @ ''<br />'' @ g2 @ replace_all (drop (length g1 + length g2) s)"
      using Some m by (subst replace_all.simps) simp
    from Some m consider
        (grp) c r where "s = c # r" "group1_class c" "g1 = [c]" "match_group2 r = Some g2"
      | (bare) "g1 = []" "match_group2 s = Some g2"
      by (cases s) (auto simp: match_here_def split: option.splits if_splits)
    then show ?thesis
    proof cases
      case grp
      have a: "newline_tokens s = [c] # newline_tokens r" "\<not> is_newline_char c"
        using match_group2_None [OF group1_class_no_match [OF grp(2)], of r] grp(1) by simp_all
      show ?thesis
        using unf ih a match_group2_Some [OF grp(4)] grp
        by (simp add: spec_newlineToBr_def br_before_char br_before_seq)
    next
      case bare
      show ?thesis
        using unf ih match_group2_Some [OF bare(2)] bare
        by (simp add: spec_newlineToBr_def br_before_seq)
    qed
  qed
qed

lemma concat_newline_tokens: "concat (newline_tokens s) = s"
  by (induction s rule: newline_tokens.induct) auto

lemma newline_tokens_shape:
  "t \<in> set (newline_tokens s) \<Longrightarrow> is_newline_seq t \<or> (\<exists>c. t = [c] \<and> \<not> is_newline_char c)"
  by (induction s rule: newline_tokens.induct)
     (auto simp: is_newline_seq_def is_newline_char_def split: if_splits)

subsection \<open>Rounding to one decimal\<close>

text \<open>
  Two quotients and their doubles: \<open>0.15\<close> is \<open>5404319552844595 / 2^55\<close>, a little
  below \<open>3/20\<close>, so \<^verbatim>\<open>(0.15).toFixed(1)\<close> is \<^verbatim>\<open>"0.1"\<close>; \<open>0.25\<close> is exact, a
  tie, so \<^verbatim>\<open>(0.25).toFixed(1)\<close> is \<^verbatim>\<open>"0.3"\<close>.
\<close>

lemma fdiv1000_examples:
  "fdiv1000 150 = (5404319552844595, 55)"
  "fdiv1000 250 = (4503599627370496, 54)"
  "toFixed1 (fdiv1000 150) = 1"
  "toFixed1 (fdiv1000 250) = 3"
  "toFixed1 (fdiv1000 50) = 1"
  "toFixed1 (fdiv1000 90050) = 900"
  by (simp_all add: fdiv1000_def toFixed1_def norm_shift.simps)

lemma norm_shift_reaches:
  "a \<noteq> 0 \<Longrightarrow> 1000 * 2 ^ 52 \<le> a * 2 ^ norm_shift a k"
proof (induction a k rule: norm_shift.induct)
  case (1 a k)
  show ?case
  proof (cases "1000 * 2 ^ 52 \<le> a * 2 ^ k")
    case True
    then show ?thesis by (subst norm_shift.simps) simp
  next
    case False
    then have "norm_shift a k = norm_shift a (Suc k)"
      using "1.prems" by (subst norm_shift.simps) simp
    then show ?thesis using 1 False by simp
  qed
qed

lemma norm_shift_zero: "norm_shift 0 k = k"
  by (subst norm_shift.simps) simp

text \<open>The numerator of the double is within half a unit of the exact quotient.\<close>

lemma round_even_near:
  fixes M :: nat
  defines "q \<equiv> M div 1000" and "r \<equiv> M mod 1000"
  defines "m \<equiv> (if r < 500 \<or> (r = 500 \<and> even q) then q else q + 1)"
  shows "1000 * m \<le> M + 500 \<and> M \<le> 1000 * m + 500"
proof -
  have "M = 1000 * q + r" "r < 1000" by (simp_all add: q_def r_def)
  then show ?thesis by (auto simp: m_def)
qed

lemma half_up_near:
  fixes m P :: nat
  assumes "0 < P"
  defines "n \<equiv> (20 * m + P) div (2 * P)"
  shows "2 * (P * n) \<le> 20 * m + P \<and> 20 * m + P < 2 * (P * n) + 2 * P"
proof -
  have "2 * P * n + (20 * m + P) mod (2 * P) = 20 * m + P"
    unfolding n_def by simp
  then have "2 * (P * n) + (20 * m + P) mod (2 * P) = 20 * m + P"
    by (simp add: mult.assoc)
  moreover have "(20 * m + P) mod (2 * P) < 2 * P" using assms(1) by simp
  ultimately show ?thesis by linarith
qed

lemma toFixed1_bounds:
  fixes a :: nat
  defines "P \<equiv> 2 ^ norm_shift a 0"
  defines "n \<equiv> toFixed1 (fdiv1000 a)"
  shows "P * (100 * n) \<le> P * (a + 50) + 500 \<and> P * (a + 50) < P * (100 * n + 100) + 500"
proof -
  define M where "M = a * P"
  define m where "m = (if M mod 1000 < 500 \<or> (M mod 1000 = 500 \<and> even (M div 1000)) then M div 1000 else M div 1000 + 1)"
  define X where "X = P * n"
  have Ppos: "0 < P" by (simp add: P_def)
  have n: "n = (20 * m + P) div (2 * P)"
    by (simp add: n_def toFixed1_def fdiv1000_def Let_def m_def M_def P_def)
  have 1: "1000 * m \<le> M + 500 \<and> M \<le> 1000 * m + 500"
    unfolding m_def by (rule round_even_near)
  have 2: "2 * X \<le> 20 * m + P \<and> 20 * m + P < 2 * X + 2 * P"
    unfolding n X_def using Ppos by (rule half_up_near)
  have e1: "P * (100 * n) = 100 * X" by (simp add: X_def)
  have e2: "P * (a + 50) = M + 50 * P" by (simp add: M_def algebra_simps)
  have e3: "P * (100 * n + 100) = 100 * X + 100 * P" by (simp add: X_def algebra_simps)
  show ?thesis unfolding e1 e2 e3 using 1 2 by linarith
qed

lemma cancel_le:
  fixes P x y :: nat
  assumes "P * x \<le> P * y + 500" "500 < P"
  shows "x \<le> y"
proof (rule ccontr)
  assume "\<not> x \<le> y"
  then have "Suc y \<le> x" by simp
  then have "P * Suc y \<le> P * x" by (rule mult_le_mono2)
  then show False using assms by simp
qed

lemma cancel_less:
  fixes P x y :: nat
  assumes "P * x < P * y + 500" "500 < P"
  shows "x \<le> y"
proof (rule ccontr)
  assume "\<not> x \<le> y"
  then have "Suc y \<le> x" by simp
  then have "P * Suc y \<le> P * x" by (rule mult_le_mono2)
  then show False using assms by simp
qed

lemma norm_shift_large:
  fixes a :: nat
  assumes "a \<noteq> 0" "a < 2 ^ 53"
  shows "500 < (2::nat) ^ norm_shift a 0"
proof -
  let ?k = "norm_shift a 0"
  have reach: "1000 * 2 ^ 52 \<le> a * 2 ^ ?k" using assms(1) by (rule norm_shift_reaches)
  have "\<not> ?k < 9"
  proof
    assume "?k < 9"
    then have "(2::nat) ^ ?k \<le> 2 ^ 8" by (intro power_increasing) auto
    then have "a * 2 ^ ?k \<le> a * 2 ^ 8" by (rule mult_le_mono2)
    moreover have "a * 2 ^ 8 < 2 ^ 53 * 2 ^ 8" using assms(2) by simp
    moreover have "(2::nat) ^ 53 * 2 ^ 8 < 1000 * 2 ^ 52" by simp
    ultimately show False using reach by linarith
  qed
  then have "(2::nat) ^ 9 \<le> 2 ^ ?k" by (intro power_increasing) auto
  then show ?thesis by simp
qed


lemma toFixed1_rounds:
  fixes a :: nat
  assumes "a < 2 ^ 53"
  shows "100 * toFixed1 (fdiv1000 a) \<le> a + 50 \<and> a \<le> 100 * toFixed1 (fdiv1000 a) + 50"
proof (cases "a = 0")
  case True
  then show ?thesis by (simp add: toFixed1_def fdiv1000_def norm_shift_zero)
next
  case False
  let ?P = "(2::nat) ^ norm_shift a 0" and ?n = "toFixed1 (fdiv1000 a)"
  have P: "500 < ?P" using False assms by (rule norm_shift_large)
  have b: "?P * (100 * ?n) \<le> ?P * (a + 50) + 500"
          "?P * (a + 50) < ?P * (100 * ?n + 100) + 500"
    using toFixed1_bounds [of a] by simp_all
  have "100 * ?n \<le> a + 50" using b(1) P by (rule cancel_le)
  moreover have "a + 50 \<le> 100 * ?n + 100" using b(2) P by (rule cancel_less)
  ultimately show ?thesis by linarith
qed

lemma toFixed1_loose:
  fixes a :: nat
  shows "a < 100 * toFixed1 (fdiv1000 a) + 550"
proof -
  let ?P = "(2::nat) ^ norm_shift a 0" and ?n = "toFixed1 (fdiv1000 a)"
  have P: "1 \<le> ?P" by simp
  have "?P * (a + 50) < ?P * (100 * ?n + 100) + 500"
    using toFixed1_bounds [of a] by simp
  also have "\<dots> \<le> ?P * (100 * ?n + 100) + ?P * 500" using P by simp
  also have "\<dots> = ?P * (100 * ?n + 600)" by (simp add: algebra_simps)
  finally have "a + 50 < 100 * ?n + 600" by simp
  then show ?thesis by simp
qed

lemma toFixed1_timeout_iff:
  fixes a :: nat
  shows "900 < toFixed1 (fdiv1000 a) \<longleftrightarrow> 90050 < a"
proof (cases "a < 2 ^ 53")
  case True
  note r = toFixed1_rounds [OF True]
  show ?thesis
  proof (cases "a = 90050")
    case True
    then show ?thesis by (simp add: toFixed1_def fdiv1000_def norm_shift.simps)
  next
    case False
    then show ?thesis using r by linarith
  qed
next
  case False
  then have big: "(2::nat) ^ 53 \<le> a" by simp
  have "(100000::nat) \<le> 2 ^ 53" by simp
  then have "100000 \<le> a" using big by linarith
  then show ?thesis using toFixed1_loose [of a] by linarith
qed

subsection \<open>The invariant of the client is kept by every operation\<close>

lemma client_inv_view: "timer_view s' = timer_view s \<Longrightarrow> client_inv s' = client_inv s"
  by (simp add: timer_view_def client_inv_def polling_inv_def handles_inv_def poll_timers_def
        split: option.splits)

lemma view_simple [simp]:
  "timer_view (addResult d s) = timer_view s"
  "timer_view (clearResult s) = timer_view s"
  "timer_view (clearRun s) = timer_view s"
  "timer_view (setEditorContents d s) = timer_view s"
  "timer_view (setError d s) = timer_view s"
  "timer_view (setFilename f s) = timer_view s"
  "timer_view (setStatus d s) = timer_view s"
  "timer_view (setUiStateInitialLoadFailed s) = timer_view s"
  "timer_view (setUiStateReady s) = timer_view s"
  "timer_view (statusUpdateTick p now s) = timer_view s"
  "timer_view (onProjectGetError s) = timer_view s"
  by (simp_all add: timer_view_def addResult_def clearResult_def clearRun_def
        setEditorContents_def setError_def setFilename_def setStatus_def
        setUiStateInitialLoadFailed_def setUiStateReady_def statusUpdateTick_def
        onProjectGetError_def)

lemma view_configureEditor [simp]: "timer_view (snd (configureEditor s)) = timer_view s"
  by (simp add: timer_view_def configureEditor_def Let_def split: sum.splits)

lemma view_main [simp]: "timer_view (snd (main opt s)) = timer_view s"
  by (simp add: timer_view_def main_def split: sum.splits)

lemma view_onProjectGetSuccess [simp]: "timer_view (snd (onProjectGetSuccess d x s)) = timer_view s"
proof -
  have "\<And>s'. timer_view (snd (configureEditor s')) = timer_view s'" by simp
  then show ?thesis
    by (auto simp: onProjectGetSuccess_def Let_def timer_view_def setFilename_def
          setUiStateReady_def setEditorContents_def onProjectGetError_def setError_def
          setUiStateInitialLoadFailed_def configureEditor_def
        split: response.splits prod.splits option.splits sum.splits)
qed


lemma filter_other_handle:
  "h \<notin> fst ` {x \<in> set xs. P x} \<Longrightarrow> filter (\<lambda>x. fst x \<noteq> h \<and> P x) xs = filter P xs"
  by (rule filter_cong) force+

lemma filter_own_handle:
  assumes "filter P xs = [t]" "fst t = h"
  shows "filter (\<lambda>x. fst x \<noteq> h \<and> P x) xs = []"
proof -
  have "filter (\<lambda>x. fst x \<noteq> h \<and> P x) xs = filter (\<lambda>x. fst x \<noteq> h) (filter P xs)"
    by (simp add: conj_commute)
  then show ?thesis using assms by simp
qed

lemma inv_stopStatusUpdates: "client_inv s \<Longrightarrow> client_inv (stopStatusUpdates s)"
  by (auto simp: client_inv_def polling_inv_def handles_inv_def poll_timers_def
        stopStatusUpdates_def clearTimeout_def list_all_iff filter_other_handle
      split: option.splits)

lemma inv_startStatusUpdates: "client_inv s \<Longrightarrow> client_inv (startStatusUpdates now s)"
  by (auto simp: client_inv_def polling_inv_def handles_inv_def poll_timers_def
        startStatusUpdates_def setInterval_def setStatus_def Let_def list_all_iff
      split: option.splits)

lemma inv_stopPolling: "client_inv s \<Longrightarrow> client_inv (stopPolling s)"
  by (auto simp: client_inv_def polling_inv_def handles_inv_def poll_timers_def
        stopPolling_def clearTimeout_def list_all_iff filter_own_handle filter_other_handle
      split: option.splits)

lemma inv_startPolling: "client_inv s \<Longrightarrow> client_inv (startPolling ticket now s)"
  by (auto simp: client_inv_def polling_inv_def handles_inv_def poll_timers_def
        startPolling_def setInterval_def Let_def list_all_iff
      split: option.splits)

lemma inv_view: "client_inv s \<Longrightarrow> timer_view s' = timer_view s \<Longrightarrow> client_inv s'"
  using client_inv_view by blast

text \<open>
  A property of the timers and of the module's handles that the four functions
  starting and stopping an interval keep is kept by every event.
\<close>

lemma timer_property_step:
  assumes view: "\<And>s s'. Q s \<Longrightarrow> timer_view s' = timer_view s \<Longrightarrow> Q s'"
    and p1: "\<And>s. Q s \<Longrightarrow> Q (stopStatusUpdates s)"
    and p2: "\<And>s now. Q s \<Longrightarrow> Q (startStatusUpdates now s)"
    and p3: "\<And>s. Q s \<Longrightarrow> Q (stopPolling s)"
    and p4: "\<And>s ticket now. Q s \<Longrightarrow> Q (startPolling ticket now s)"
    and Q: "Q s"
  shows "Q (step e s)"
proof -
  have rundone: "Q (setUiStateRunDone st p s)" if "Q s" for st p s
  proof -
    have "timer_view (setUiStateRunDone st p s) = timer_view (stopStatusUpdates s)"
      by (simp add: setUiStateRunDone_def Let_def timer_view_def setStatus_def clearResult_def
            addResult_def split: option.splits)
    then show ?thesis using p1 [OF that] view by blast
  qed
  have running: "Q (setUiStateRunning now s)" if "Q s" for now s
  proof -
    let ?s2 = "clearResult (s\<lparr>control_classes :=
                     insert ''glyphicon-repeat''
                       (insert ''control-running'' (control_classes s - {''glyphicon-play''})),
                     click_handlers := 0\<rparr>)"
    have "timer_view ?s2 = timer_view s" by (simp add: timer_view_def clearResult_def)
    then have "Q ?s2" using that view by blast
    then have "Q (startStatusUpdates now ?s2)" by (rule p2)
    then show ?thesis by (simp add: setUiStateRunning_def Let_def)
  qed
  have results: "Q (getRunResults ticket now s)" if "Q s" for ticket now s
  proof -
    have "timer_view (s\<lparr>requests := requests s @ [run_status_request ticket]\<rparr>) = timer_view s"
      by (simp add: timer_view_def)
    then have "Q (s\<lparr>requests := requests s @ [run_status_request ticket]\<rparr>)"
      using that view by blast
    moreover have "Q (setUiStateRunDone ''Ready'' (Some ''Run timed out.'') (stopPolling s))"
      using that by (intro rundone p3)
    ultimately show ?thesis by (simp add: getRunResults_def Let_def)
  qed
  have cleared: "Q (clearRun (stopPolling s))" if "Q s" for s
    using view [OF p3 [OF that], of "clearRun (stopPolling s)"] by simp
  have geterr: "Q (onRunGetError s)" if "Q s" for s
    unfolding onRunGetError_def using that by (intro rundone cleared)
  have getok: "Q (snd (onRunGetSuccess d x s))" if "Q s" for d x s
    using that cleared [OF that] geterr [OF that] rundone [OF cleared [OF that]]
    by (simp add: onRunGetSuccess_def Let_def split: response.splits)
  have posterr: "Q (onProjectPostError x s)" if "Q s" for x s
    using that by (simp add: onProjectPostError_def Let_def rundone)
  have postok: "Q (snd (onProjectPostSuccess d x now s))" if "Q s" for d x now s
    using that by (simp add: onProjectPostSuccess_def posterr p4 split: response.splits)
  have click: "Q (onRunControlClick now s)" if "Q s" for now s
    unfolding onRunControlClick_def Let_def
    by (rule view [OF running [OF that, of now]]) (simp add: timer_view_def)
  have clicks: "Q ((onRunControlClick now ^^ n) s)" if "Q s" for now n s
    using that by (induction n) (simp_all add: click)
  have same: "Q s'" if "Q s" "timer_view s' = timer_view s" for s s'
    using that view by blast
  show ?thesis
  proof (cases e)
    case (Invoke c)
    show ?thesis using Q unfolding Invoke
      by (cases c)
         (simp_all add: results geterr getok posterr postok click running rundone p1 p2 p3 p4
            same [OF Q])
  next
    case (TimerFires h now)
    show ?thesis
      using TimerFires results [OF Q] same [OF Q, of "statusUpdateTick _ now s"] Q
      by (simp split: option.splits prod.splits timer_callback.splits)
  next
    case (Click now)
    then show ?thesis using Q by (simp add: clicks)
  next
    case (UserEdits v)
    show ?thesis using UserEdits same [OF Q, of "s\<lparr>editor_value := v\<rparr>"]
      by (simp add: timer_view_def)
  qed
qed

lemma timer_property_run:
  assumes view: "\<And>s s'. Q s \<Longrightarrow> timer_view s' = timer_view s \<Longrightarrow> Q s'"
    and p1: "\<And>s. Q s \<Longrightarrow> Q (stopStatusUpdates s)"
    and p2: "\<And>s now. Q s \<Longrightarrow> Q (startStatusUpdates now s)"
    and p3: "\<And>s. Q s \<Longrightarrow> Q (stopPolling s)"
    and p4: "\<And>s ticket now. Q s \<Longrightarrow> Q (startPolling ticket now s)"
  shows "Q s \<Longrightarrow> Q (run es s)"
  unfolding run_def
proof (induction es arbitrary: s)
  case Nil
  then show ?case by simp
next
  case (Cons e es)
  have "Q (step e s)" using view p1 p2 p3 p4 Cons.prems by (rule timer_property_step)
  then show ?case using Cons.IH by simp
qed

lemma inv_step: "client_inv s \<Longrightarrow> client_inv (step e s)"
  by (rule timer_property_step [where Q = client_inv])
     (auto intro: inv_view inv_stopStatusUpdates inv_startStatusUpdates inv_stopPolling
        inv_startPolling)

lemma inv_run: "client_inv s \<Longrightarrow> client_inv (run es s)"
  unfolding run_def by (induction es arbitrary: s) (simp_all add: inv_step)

lemma retired_run: "retired h s \<Longrightarrow> retired h (run es s)"
proof (rule timer_property_run [where Q = "retired h"])
  show "\<And>s s'. retired h s \<Longrightarrow> timer_view s' = timer_view s \<Longrightarrow> retired h s'"
    by (simp add: retired_def timer_view_def)
  show "\<And>s. retired h s \<Longrightarrow> retired h (stopStatusUpdates s)"
    by (auto simp: retired_def stopStatusUpdates_def clearTimeout_def split: option.splits)
  show "\<And>s now. retired h s \<Longrightarrow> retired h (startStatusUpdates now s)"
    by (auto simp: retired_def startStatusUpdates_def setInterval_def setStatus_def Let_def)
  show "\<And>s. retired h s \<Longrightarrow> retired h (stopPolling s)"
    by (auto simp: retired_def stopPolling_def clearTimeout_def split: option.splits)
  show "\<And>s ticket now. retired h s \<Longrightarrow> retired h (startPolling ticket now s)"
    by (auto simp: retired_def startPolling_def setInterval_def Let_def)
qed

lemma inv_initial: "client_inv (initial href search classes)"
  by (simp add: client_inv_def polling_inv_def handles_inv_def poll_timers_def initial_def)

subsection \<open>The requests the client sends\<close>

lemma requests_simple [simp]:
  "requests (addResult d s) = requests s"
  "requests (clearResult s) = requests s"
  "requests (clearRun s) = requests s"
  "requests (setEditorContents d s) = requests s"
  "requests (setError d s) = requests s"
  "requests (setFilename f s) = requests s"
  "requests (setStatus d s) = requests s"
  "requests (setUiStateInitialLoadFailed s) = requests s"
  "requests (setUiStateReady s) = requests s"
  "requests (statusUpdateTick p now s) = requests s"
  "requests (onProjectGetError s) = requests s"
  "requests (stopStatusUpdates s) = requests s"
  "requests (startStatusUpdates now s) = requests s"
  "requests (stopPolling s) = requests s"
  "requests (startPolling ticket now s) = requests s"
  "requests (snd (configureEditor s)) = requests s"
  by (simp_all add: addResult_def clearResult_def clearRun_def
        setEditorContents_def setError_def setFilename_def setStatus_def
        setUiStateInitialLoadFailed_def setUiStateReady_def statusUpdateTick_def
        onProjectGetError_def stopStatusUpdates_def startStatusUpdates_def stopPolling_def
        startPolling_def clearTimeout_def setInterval_def Let_def configureEditor_def
      split: option.splits sum.splits)

lemma requests_setUiStateRunDone [simp]: "requests (setUiStateRunDone st p s) = requests s"
  by (simp add: setUiStateRunDone_def Let_def split: option.splits)

lemma requests_setUiStateRunning [simp]: "requests (setUiStateRunning now s) = requests s"
  by (simp add: setUiStateRunning_def Let_def)

lemma requests_onRunGetError [simp]: "requests (onRunGetError s) = requests s"
  by (simp add: onRunGetError_def)

lemma requests_onRunGetSuccess [simp]: "requests (snd (onRunGetSuccess d x s)) = requests s"
  by (simp add: onRunGetSuccess_def Let_def split: response.splits)

lemma requests_onProjectPostError [simp]: "requests (onProjectPostError x s) = requests s"
  by (simp add: onProjectPostError_def Let_def)

lemma requests_onProjectPostSuccess [simp]:
  "requests (snd (onProjectPostSuccess d x now s)) = requests s"
  by (simp add: onProjectPostSuccess_def split: response.splits)

lemma requests_onProjectGetSuccess [simp]:
  "requests (snd (onProjectGetSuccess d x s)) = requests s"
proof (cases "xhr_status x \<noteq> 200")
  case True
  then show ?thesis by (simp add: onProjectGetSuccess_def split: response.splits)
next
  case False
  show ?thesis
  proof (cases d)
    case (Payload p)
    let ?s3 = "setFilename (getFilename (pp_filename p) (pp_projectName p))
                 (s\<lparr>editorFile := Some (pp_filename p), projectName := Some (pp_projectName p)\<rparr>)"
    obtain e s4 where c: "configureEditor ?s3 = (e, s4)" by (cases "configureEditor ?s3")
    have "requests (snd (configureEditor ?s3)) = requests ?s3" by simp
    then have "requests s4 = requests s" using c by simp
    then show ?thesis using False Payload c
      by (simp add: onProjectGetSuccess_def Let_def split: option.splits)
  qed (use False in \<open>simp_all add: onProjectGetSuccess_def\<close>)
qed

lemma requests_main:
  "requests (snd (main opt s)) = requests s \<or>
   (\<exists>r. requests (snd (main opt s)) = requests s @ [r] \<and> ajax_type r = ''GET'')"
  by (simp add: main_def split: sum.splits)

lemma requests_getRunResults:
  "requests (getRunResults ticket now s) = requests s \<or>
   (\<exists>r. requests (getRunResults ticket now s) = requests s @ [r] \<and> ajax_type r = ''GET'')"
  by (simp add: getRunResults_def Let_def run_status_request_def)

lemma requests_onRunControlClick:
  "requests (onRunControlClick now s) = requests s @
     [\<lparr> ajax_url = ''/rest/balancer/v1'', ajax_crossDomain = True, ajax_type = ''POST'',
        ajax_request =
          JsonObject
            [(''patches'',
              JsonArray [JsonObject [(''contents'', JsonString (editor_value s)),
                                     (''filename'', json_of_nullable (editorFile s))]]),
             (''project'', json_of_nullable (projectName s)),
             (''user_id'', JsonString ''some_user'')],
        ajax_dataType = ''json'',
        ajax_success = OnProjectPostSuccess, ajax_error = OnProjectPostError \<rparr>]"
proof -
  have "editor_value (setUiStateRunning now s) = editor_value s"
       "editorFile (setUiStateRunning now s) = editorFile s"
       "projectName (setUiStateRunning now s) = projectName s"
    by (simp_all add: setUiStateRunning_def startStatusUpdates_def clearResult_def Let_def
          setStatus_def setInterval_def)
  then show ?thesis
    by (simp add: onRunControlClick_def Let_def stringify_object_def List.map_filter_def
          makePatch_def)
qed

lemma posts_ok_append:
  "posts_ok s \<Longrightarrow> requests s' = requests s @ [r] \<Longrightarrow>
   (ajax_type r = ''POST'' \<longrightarrow> is_create_task (ajax_request r)) \<Longrightarrow> posts_ok s'"
  by (simp add: posts_ok_def)

lemma posts_ok_same: "posts_ok s \<Longrightarrow> requests s' = requests s \<Longrightarrow> posts_ok s'"
  by (simp add: posts_ok_def)

lemma posts_ok_click: "posts_ok s \<Longrightarrow> posts_ok (onRunControlClick now s)"
  by (rule posts_ok_append [OF _ requests_onRunControlClick])
     (simp_all add: is_create_task_def json_fields_def)

lemma posts_ok_exec: "posts_ok s \<Longrightarrow> posts_ok (exec c s)"
proof (cases c)
  case (Call_main opt)
  assume a: "posts_ok s"
  show ?thesis using requests_main [of opt s] a Call_main
    by (auto intro: posts_ok_same posts_ok_append)
next
  case (Call_getRunResults ticket now)
  assume a: "posts_ok s"
  show ?thesis using requests_getRunResults [of ticket now s] a Call_getRunResults
    by (auto intro: posts_ok_same posts_ok_append)
next
  case (Call_onRunControlClick now)
  assume "posts_ok s" then show ?thesis using Call_onRunControlClick by (simp add: posts_ok_click)
qed (auto intro: posts_ok_same)

lemma posts_ok_step: "posts_ok s \<Longrightarrow> posts_ok (step e s)"
proof (cases e)
  case (Invoke c)
  assume "posts_ok s" then show ?thesis using Invoke by (simp add: posts_ok_exec)
next
  case (TimerFires h now)
  assume a: "posts_ok s"
  have "posts_ok (getRunResults ticket now s)" for ticket
    using requests_getRunResults [of ticket now s] a
    by (auto intro: posts_ok_same posts_ok_append)
  moreover have "posts_ok (statusUpdateTick p now s)" for p
    using a by (auto intro: posts_ok_same)
  ultimately show ?thesis using TimerFires a
    by (simp split: option.splits prod.splits timer_callback.splits)
next
  case (Click now)
  assume a: "posts_ok s"
  have "posts_ok ((onRunControlClick now ^^ n) s)" for n
    using a by (induction n) (simp_all add: posts_ok_click)
  then show ?thesis using Click by simp
next
  case (UserEdits v)
  assume "posts_ok s" then show ?thesis using UserEdits by (simp add: posts_ok_def)
qed

lemma posts_ok_run: "posts_ok s \<Longrightarrow> posts_ok (run es s)"
  unfolding run_def by (induction es arbitrary: s) (simp_all add: posts_ok_step)

subsection \<open>The example run\<close>

lemma example_polling_reached:
  "run [Invoke (Call_onProjectGetSuccess (Payload example_project) ok200),
        Click 0,
        Invoke (Call_onProjectPostSuccess (Payload (JStr ''t1'')) ok200 1000)] example_page
     = example_polling"
  by (simp add: run_def example_page_def example_project_def ok200_def example_polling_def
        initial_def onProjectGetSuccess_def setFilename_def getFilename_def configureEditor_def
        getEditorMode_def setUiStateReady_def setEditorContents_def Let_def
        onRunControlClick_def setUiStateRunning_def clearResult_def startStatusUpdates_def
        setStatus_def setInterval_def statusUpdateIntervalMsec_def stringify_object_def
        List.map_filter_def makePatch_def onProjectPostSuccess_def startPolling_def
        runPollingIntervalMsec_def insert_commute)

lemma example_polling_inv: "client_inv example_polling"
  by (simp add: client_inv_def polling_inv_def handles_inv_def poll_timers_def example_polling_def)

subsection \<open>The invariant of the workers, and terminal records\<close>

lemma filtered_lookup:
  assumes "distinct (map fst al)"
  shows "map_of (filter keep al) t =
           (if \<exists>r. map_of al t = Some r \<and> keep (t, r) then map_of al t else None)"
  using assms
proof (induction al)
  case Nil
  show ?case by simp
next
  case (Cons entry al)
  have fresh: "map_of al (fst entry) = None"
    using Cons.prems by (simp add: map_of_eq_None_iff)
  have ih: "map_of (filter keep al) t =
              (if \<exists>r. map_of al t = Some r \<and> keep (t, r) then map_of al t else None)"
    using Cons by simp
  show ?case
  proof (cases "fst entry = t")
    case True
    then show ?thesis using fresh ih by (cases entry) auto
  next
    case False
    then show ?thesis using ih by (cases entry) auto
  qed
qed

lemma list_all_update:
  "list_all (\<lambda>(t, r). t < n) xs \<Longrightarrow> k < n \<Longrightarrow> list_all (\<lambda>(t, r). t < n) (AList.update k v xs)"
  by (induction xs) (auto)

lemma list_all_mono_ticket:
  "list_all (\<lambda>(t, r). t < n) xs \<Longrightarrow> list_all (\<lambda>(t, r::result_record). t < Suc n) xs"
  by (induction xs) auto

lemma worker_inv_Suc: "worker_inv n w \<Longrightarrow> worker_inv (Suc n) w"
  by (simp add: worker_inv_def list_all_mono_ticket)

lemma worker_inv_submit: "worker_inv n w \<Longrightarrow> submit n now w = Inr w' \<Longrightarrow> worker_inv (Suc n) w'"
  by (auto simp: worker_inv_def submit_def distinct_update list_all_update list_all_mono_ticket
        update_conv' split: option.splits)

lemma worker_inv_finish:
  assumes "worker_inv n w"
  shows "worker_inv n (finish ok out now w)"
proof (cases "lock w")
  case None
  then show ?thesis using assms by (simp add: finish_def)
next
  case (Some t)
  from assms Some obtain r where r: "map_of (store w) t = Some r"
    by (auto simp: worker_inv_def split: option.splits)
  then have "(t, r) \<in> set (store w)" by (rule map_of_SomeD)
  moreover have all: "list_all (\<lambda>(t, r). t < n) (store w)" using assms by (simp add: worker_inv_def)
  ultimately have "t < n" by (auto simp: list_all_iff)
  then show ?thesis
    using assms Some all
    by (simp add: worker_inv_def finish_def distinct_update list_all_update)
qed

lemma worker_inv_housekeeping:
  assumes "worker_inv n w"
  shows "worker_inv n (housekeeping ret now w)"
proof -
  let ?P = "\<lambda>(t, r). rr_status r = Running \<or> now < rr_writtenAt r + ret"
  have d: "distinct (map fst (store w))" using assms by (simp add: worker_inv_def)
  have 1: "distinct (map fst (filter ?P (store w)))" using d by (rule distinct_map_filter)
  have 2: "list_all (\<lambda>(t, r). t < n) (filter ?P (store w))"
    using assms by (auto simp: worker_inv_def list_all_iff)
  have 3: "case lock w of None \<Rightarrow> True
           | Some t \<Rightarrow> (case map_of (filter ?P (store w)) t of
                          None \<Rightarrow> False | Some r \<Rightarrow> rr_status r = Running)"
  proof (cases "lock w")
    case None
    then show ?thesis by simp
  next
    case (Some t)
    from assms Some obtain r where r: "map_of (store w) t = Some r" "rr_status r = Running"
      by (auto simp: worker_inv_def split: option.splits)
    have "map_of (filter ?P (store w)) t = Some r"
      by (simp add: filtered_lookup [OF d] r)
    then show ?thesis using Some r by simp
  qed
  show ?thesis using 1 2 3 by (simp add: worker_inv_def housekeeping_def cong: option.case_cong)
qed

lemma list_all_update_nth:
  "list_all P ws \<Longrightarrow> P w \<Longrightarrow> list_all P (ws[i := w])"
  by (auto simp: list_all_iff dest!: subsetD [OF set_update_subset_insert])

lemma sys_inv_on_worker:
  assumes "sys_inv sys" "\<And>w. worker_inv (next_ticket sys) w \<Longrightarrow> worker_inv (next_ticket sys) (f w)"
  shows "sys_inv (on_worker wid f sys)"
proof (cases "wid < length (workers sys)")
  case True
  then have "worker_inv (next_ticket sys) (workers sys ! wid)"
    using assms(1) by (simp add: sys_inv_def list_all_length)
  then show ?thesis using assms True by (simp add: sys_inv_def on_worker_def list_all_update_nth)
next
  case False
  then show ?thesis using assms(1) by (simp add: on_worker_def)
qed

lemma sys_inv_createTask:
  assumes "sys_inv sys"
  shows "sys_inv (snd (createTask wid now sys))"
proof -
  let ?n = "next_ticket sys"
  have all: "list_all (worker_inv (Suc ?n)) (workers sys)"
    using assms by (auto simp: sys_inv_def list_all_iff worker_inv_Suc)
  show ?thesis
  proof (cases "wid < length (workers sys)")
    case False
    then show ?thesis using all by (simp add: createTask_def Let_def sys_inv_def)
  next
    case True
    then have w: "worker_inv ?n (workers sys ! wid)"
      using assms by (simp add: sys_inv_def list_all_length)
    show ?thesis
    proof (cases "submit ?n now (workers sys ! wid)")
      case (Inl e)
      then show ?thesis using all True by (simp add: createTask_def Let_def sys_inv_def)
    next
      case (Inr w')
      then have "worker_inv (Suc ?n) w'" using w worker_inv_submit by blast
      then show ?thesis
        using all True Inr by (simp add: createTask_def Let_def sys_inv_def list_all_update_nth)
    qed
  qed
qed

lemma sys_inv_step: "sys_inv sys \<Longrightarrow> sys_inv (sys_step e sys)"
  by (cases e)
     (simp_all add: sys_inv_createTask sys_inv_on_worker worker_inv_finish
        worker_inv_housekeeping, simp add: sys_inv_def)

lemma kept_finish:
  assumes "worker_inv n w" "kept t r n w"
  shows "kept t r n (finish ok out now w)"
proof (cases "lock w")
  case None
  then show ?thesis using assms by (simp add: finish_def)
next
  case (Some h)
  from assms(1) Some obtain r' where r': "map_of (store w) h = Some r'" "rr_status r' = Running"
    by (auto simp: worker_inv_def split: option.splits)
  have "h \<noteq> t" using r' assms(2) by (auto simp: kept_def)
  then show ?thesis using assms(2) Some by (simp add: kept_def finish_def update_conv')
qed

lemma kept_housekeeping:
  assumes "worker_inv n w" "kept t r n w"
  shows "kept t r n (housekeeping ret now w)"
proof -
  have d: "distinct (map fst (store w))" using assms(1) by (simp add: worker_inv_def)
  have "map_of (store w) t = None \<Longrightarrow> ?thesis"
    using assms(2) by (simp add: kept_def housekeeping_def filtered_lookup [OF d])
  moreover have "map_of (store w) t = Some r \<Longrightarrow> ?thesis"
    using assms(2) by (simp add: kept_def housekeeping_def filtered_lookup [OF d])
  ultimately show ?thesis using assms(2) by (auto simp: kept_def)
qed

lemma kept_submit:
  assumes "kept t r n w" "submit n now w = Inr w'"
  shows "kept t r (Suc n) w'"
  using assms by (auto simp: kept_def submit_def update_conv' split: option.splits)

lemma kept_Suc: "kept t r n w \<Longrightarrow> kept t r (Suc n) w"
  by (simp add: kept_def)

lemma sys_kept_step:
  assumes "sys_inv sys" "sys_kept wid t r sys"
  shows "sys_kept wid t r (sys_step e sys)"
proof -
  have len: "wid < length (workers sys)" and k: "kept t r (next_ticket sys) (workers sys ! wid)"
    using assms(2) by (simp_all add: sys_kept_def)
  have w: "worker_inv (next_ticket sys) (workers sys ! wid)"
    using assms(1) len by (simp add: sys_inv_def list_all_length)
  show ?thesis
  proof (cases e)
    case (CreateTask wid' now)
    show ?thesis
    proof (cases "wid' < length (workers sys)")
      case False
      then show ?thesis using CreateTask len k by (simp add: createTask_def Let_def sys_kept_def kept_Suc)
    next
      case True
      show ?thesis
      proof (cases "submit (next_ticket sys) now (workers sys ! wid')")
        case (Inl e)
        then show ?thesis using CreateTask True len k
          by (simp add: createTask_def Let_def sys_kept_def kept_Suc)
      next
        case (Inr w')
        show ?thesis
        proof (cases "wid' = wid")
          case True
          then have "kept t r (Suc (next_ticket sys)) w'" using Inr k kept_submit by blast
          then show ?thesis using CreateTask True len Inr
            by (simp add: createTask_def Let_def sys_kept_def)
        next
          case False
          then show ?thesis using CreateTask \<open>wid' < length (workers sys)\<close> len Inr k
            by (simp add: createTask_def Let_def sys_kept_def kept_Suc)
        qed
      qed
    qed
  next
    case (Finish wid' ok out now)
    then show ?thesis using len k w kept_finish [OF w k]
      by (cases "wid' = wid") (simp_all add: on_worker_def sys_kept_def)
  next
    case (Housekeeping wid' ret now)
    then show ?thesis using len k w kept_housekeeping [OF w k]
      by (cases "wid' = wid") (simp_all add: on_worker_def sys_kept_def)
  next
    case (Poll wid' t')
    then show ?thesis using assms(2) by simp
  next
    case (Evict t')
    then show ?thesis using assms(2) by (simp add: sys_kept_def)
  qed
qed

lemma sys_inv_run: "sys_inv sys \<Longrightarrow> sys_inv (sys_run es sys)"
  unfolding sys_run_def by (induction es arbitrary: sys) (simp_all add: sys_inv_step)

lemma sys_kept_run: "sys_inv sys \<Longrightarrow> sys_kept wid t r sys \<Longrightarrow> sys_kept wid t r (sys_run es sys)"
  unfolding sys_run_def
  by (induction es arbitrary: sys) (simp_all add: sys_inv_step sys_kept_step)

lemma sys_inv_initial: "sys_inv (sys_initial n)"
  by (simp add: sys_inv_def sys_initial_def worker_inv_def list_all_iff)

subsection \<open>The timeout comparison, and finishing a run\<close>

lemma delta_gt_timeout_iff:
  "delta_gt (getDeltaSeconds (Some start) now) runPollingTimeoutSec \<longleftrightarrow> 90050 < now - start"
proof (cases "now - start < 0")
  case True
  then show ?thesis
    by (simp add: getDeltaSeconds_def delta_gt_def runPollingTimeoutSec_def)
next
  case False
  have "900 < toFixed1 (fdiv1000 (nat \<bar>now - start\<bar>)) \<longleftrightarrow> 90050 < nat \<bar>now - start\<bar>"
    by (rule toFixed1_timeout_iff)
  then show ?thesis
    using False by (simp add: getDeltaSeconds_def delta_gt_def runPollingTimeoutSec_def) linarith
qed

lemma inv_setUiStateRunDone: "client_inv s \<Longrightarrow> client_inv (setUiStateRunDone st p s)"
proof -
  assume "client_inv s"
  then have a: "client_inv (stopStatusUpdates s)" by (rule inv_stopStatusUpdates)
  have "timer_view (setUiStateRunDone st p s) = timer_view (stopStatusUpdates s)"
    by (simp add: setUiStateRunDone_def Let_def timer_view_def setStatus_def clearResult_def
          addResult_def split: option.splits)
  then show ?thesis using a client_inv_view by blast
qed

section \<open>The claims\<close>

subsection \<open>C1: a poll response with status 200 and a payload object\<close>

text \<open>
  C1. For a status-poll response with HTTP status 200 and a payload object, received in
  a state of the client that satisfies its invariant: when the payload's status is
  \<^verbatim>\<open>"running"\<close> the handler returns the state as it was, so the ticket, the start
  time and the active interval are untouched and the next poll fires; for every other
  status it returns normally with the polling interval stopped (no handle, no start
  time, no polling interval left in the window), the stored ticket and payload
  cleared, the formatted payload in the result element and the finished-run line in
  the status element.
\<close>

theorem onRunGetSuccess_running_or_terminal:
  assumes "xhr_status x = 200" and "client_inv s"
  shows "(strict_eq_str (p_status p) ''running'' \<longrightarrow>
            onRunGetSuccess (Payload p) x s = (None, s)) \<and>
         (\<not> strict_eq_str (p_status p) ''running'' \<longrightarrow>
            (let s' = snd (onRunGetSuccess (Payload p) x s) in
               fst (onRunGetSuccess (Payload p) x s) = None \<and>
               runPollingIntervalId s' = None \<and> runStart s' = None \<and>
               poll_timers s' = [] \<and>
               runTicket s' = JNull \<and> runPayload s' = JNull \<and>
               result_children s' = [formatPayload (p_status p) (p_payload p) @ ''<br />''] \<and>
               status_text s' =
                 ''Finished run of '' @ string_of_nullable (projectName s) @ ''. Status: ''
                   @ to_string (p_status p) @ ''. Result: ''))"
proof -
  have inv: "client_inv (stopPolling s)" using assms(2) by (rule inv_stopPolling)
  have keep: "poll_timers (stopStatusUpdates (clearRun (stopPolling s))) = []"
  proof -
    have "client_inv (clearRun (stopPolling s))" by (rule inv_view [OF inv]) simp
    then have "client_inv (stopStatusUpdates (clearRun (stopPolling s)))"
      by (rule inv_stopStatusUpdates)
    moreover have "runPollingIntervalId (stopStatusUpdates (clearRun (stopPolling s))) = None"
      by (simp add: stopStatusUpdates_def clearRun_def stopPolling_def clearTimeout_def
            split: option.splits)
    ultimately show ?thesis by (simp add: client_inv_def polling_inv_def)
  qed
  show ?thesis
    using assms(1) keep
    by (simp add: onRunGetSuccess_def taskRunning_def Let_def setUiStateRunDone_def
          addResult_def setStatus_def clearResult_def poll_timers_def
          stopStatusUpdates_def clearRun_def stopPolling_def clearTimeout_def
        split: option.splits)
qed

theorem onRunGetSuccess_running_or_terminal_witness:
  "onRunGetSuccess (Payload \<lparr> p_status = JStr ''running'', p_payload = JNull \<rparr>) ok200
       example_polling = (None, example_polling) \<and>
   poll_timers (snd (onRunGetSuccess
       (Payload \<lparr> p_status = JStr ''error'', p_payload = JStr ''Build failed'' \<rparr>) ok200
       example_polling)) = [] \<and>
   result_children (snd (onRunGetSuccess
       (Payload \<lparr> p_status = JStr ''error'', p_payload = JStr ''Build failed'' \<rparr>) ok200
       example_polling)) = [''Build failed<br />''] \<and>
   status_text (snd (onRunGetSuccess
       (Payload \<lparr> p_status = JStr ''error'', p_payload = JStr ''Build failed'' \<rparr>) ok200
       example_polling)) = ''Finished run of Example. Status: error. Result: ''"
proof -
  have h: "xhr_status ok200 = 200" by (simp add: ok200_def)
  have f: "formatPayload (JStr ''error'') (JStr ''Build failed'') = ''Build failed''"
    by (simp add: formatPayload_def strict_eq_str_def taskComplete_def newlineToBr_def
          replace_all.simps match_here_def match_group2_def group1_class_def CR_def LF_def)
  show ?thesis
    using onRunGetSuccess_running_or_terminal
            [OF h example_polling_inv, of "\<lparr> p_status = JStr ''running'', p_payload = JNull \<rparr>"]
          onRunGetSuccess_running_or_terminal
            [OF h example_polling_inv,
             of "\<lparr> p_status = JStr ''error'', p_payload = JStr ''Build failed'' \<rparr>"]
    by (simp add: strict_eq_str_def Let_def f example_polling_def)
qed

subsection \<open>C2: the client's own timeout\<close>

text \<open>
  C2, as stated, fails: the comparison is made on the elapsed time rounded to one
  decimal place. In the example run, started at 1000, the cycle at 91040 comes 90.04
  seconds after the start, which exceeds 90 seconds; \<^verbatim>\<open>_getDeltaSeconds\<close> returns
  \<^verbatim>\<open>"90.0"\<close>, and the cycle sends its status request and leaves the loop running.
\<close>

theorem timeout_after_90_seconds_counterexample:
  "runStart example_polling = Some 1000 \<and>
   90 * 1000 < (91040 - 1000 :: int) \<and>
   step (TimerFires 2 91040) example_polling
     = example_polling\<lparr> requests := requests example_polling @ [run_status_request (JStr ''t1'')] \<rparr>"
proof -
  have n: "toFixed1 (fdiv1000 90040) = 900"
    by (simp add: toFixed1_def fdiv1000_def norm_shift.simps)
  show ?thesis
    by (simp add: example_polling_def timer_lookup_def getRunResults_def Let_def
          getDeltaSeconds_def delta_gt_def runPollingTimeoutSec_def n)
qed

text \<open>
  C2, amended. For every cycle of the polling loop (its interval fires, in a state that
  satisfies the invariant, with the start of the run recorded): when the elapsed time,
  rounded to one decimal place as \<^verbatim>\<open>_getDeltaSeconds\<close> rounds it, exceeds 90
  seconds, which is when more than 90050 milliseconds have passed, the cycle sends
  nothing, stops the interval, and renders \<^verbatim>\<open>Ready\<close> and \<^verbatim>\<open>Run timed out.\<close>; from
  then on, whatever happens, the handle of that interval is never active again, so a
  firing of it changes nothing and sends nothing. Up to 90050 milliseconds the cycle
  sends its status request and changes nothing else.
\<close>

theorem getRunResults_timeout:
  assumes "client_inv s"
    and "timer_lookup h s = Some (msec, PollRun ticket)"
    and "runStart s = Some start"
  shows "(90050 < now - start \<longrightarrow>
            (let s' = step (TimerFires h now) s in
               requests s' = requests s \<and>
               poll_timers s' = [] \<and> runPollingIntervalId s' = None \<and> runStart s' = None \<and>
               status_text s' = ''Ready'' \<and> result_children s' = [''Run timed out.<br />''] \<and>
               (\<forall>es now'. retired h (run es s') \<and>
                  step (TimerFires h now') (run es s') = run es s'))) \<and>
         (now - start \<le> 90050 \<longrightarrow>
            step (TimerFires h now) s
              = s\<lparr> requests := requests s @ [run_status_request ticket] \<rparr>)"
proof -
  let ?done = "setUiStateRunDone ''Ready'' (Some ''Run timed out.'') (stopPolling s)"
  have gt: "delta_gt (getDeltaSeconds (runStart s) now) runPollingTimeoutSec
              \<longleftrightarrow> 90050 < now - start"
    using assms(3) by (simp add: delta_gt_timeout_iff)
  have fire: "step (TimerFires h now) s = getRunResults ticket now s"
    using assms(2) by simp
  have late: "step (TimerFires h now) s = ?done" if "90050 < now - start"
    using that gt fire by (simp add: getRunResults_def Let_def)
  have early: "step (TimerFires h now) s
                 = s\<lparr> requests := requests s @ [run_status_request ticket] \<rparr>"
    if "now - start \<le> 90050"
    using that gt fire by (simp add: getRunResults_def Let_def)
  have mem: "(h, msec, PollRun ticket) \<in> set (timers s)"
    using assms(2) by (auto simp: timer_lookup_def dest: map_of_SomeD)
  then have pm: "(h, msec, PollRun ticket) \<in> set (poll_timers s)"
    by (simp add: poll_timers_def)
  have id: "runPollingIntervalId s = Some h"
  proof (cases "runPollingIntervalId s")
    case None
    then show ?thesis using assms(1) pm by (simp add: client_inv_def polling_inv_def)
  next
    case (Some h')
    then have "map fst (poll_timers s) = [h']"
      using assms(1) by (simp add: client_inv_def polling_inv_def)
    moreover have "h \<in> set (map fst (poll_timers s))" using pm by force
    ultimately show ?thesis using Some by simp
  qed
  have below: "h < next_timer_id s"
    using assms(1) mem by (auto simp: client_inv_def handles_inv_def list_all_iff)
  have inv: "client_inv ?done"
    using assms(1) by (intro inv_setUiStateRunDone inv_stopPolling)
  have none: "runPollingIntervalId ?done = None" "runStart ?done = None"
    by (simp_all add: setUiStateRunDone_def Let_def stopStatusUpdates_def clearTimeout_def
          stopPolling_def setStatus_def clearResult_def addResult_def split: option.splits)
  have pt: "poll_timers ?done = []"
    using inv none by (simp add: client_inv_def polling_inv_def)
  have shown: "status_text ?done = ''Ready''" "result_children ?done = [''Run timed out.<br />'']"
    "requests ?done = requests s"
    by (simp_all add: setUiStateRunDone_def Let_def setStatus_def clearResult_def addResult_def)
  have ret: "retired h ?done"
    using below id
    by (auto simp: retired_def setUiStateRunDone_def Let_def stopStatusUpdates_def
          clearTimeout_def stopPolling_def setStatus_def clearResult_def addResult_def
        split: option.splits)
  have after: "retired h (run es ?done) \<and> step (TimerFires h now') (run es ?done) = run es ?done"
    for es now'
  proof -
    have r: "retired h (run es ?done)" using ret by (rule retired_run)
    then have "map_of (timers (run es ?done)) h = None"
      by (simp add: retired_def map_of_eq_None_iff)
    then show ?thesis using r by (simp add: timer_lookup_def)
  qed
  show ?thesis
    using late early pt none shown after by (simp add: Let_def)
qed

theorem getRunResults_timeout_witness:
  "result_children (step (TimerFires 2 91051) example_polling) = [''Run timed out.<br />''] \<and>
   requests (step (TimerFires 2 91051) example_polling) = requests example_polling \<and>
   poll_timers (step (TimerFires 2 91051) example_polling) = [] \<and>
   step (TimerFires 2 95000)
        (run [Click 92000, TimerFires 2 94000] (step (TimerFires 2 91051) example_polling))
     = run [Click 92000, TimerFires 2 94000] (step (TimerFires 2 91051) example_polling) \<and>
   step (TimerFires 2 4000) example_polling
     = example_polling\<lparr> requests := requests example_polling @ [run_status_request (JStr ''t1'')] \<rparr>"
proof -
  have a: "timer_lookup 2 example_polling = Some (3000, PollRun (JStr ''t1''))"
    by (simp add: timer_lookup_def example_polling_def)
  have b: "runStart example_polling = Some 1000" by (simp add: example_polling_def)
  show ?thesis
    using getRunResults_timeout [OF example_polling_inv a b, of 91051]
          getRunResults_timeout [OF example_polling_inv a b, of 4000]
    by (simp add: Let_def)
qed

subsection \<open>C3: a failed poll\<close>

text \<open>
  C3, as stated, fails: there is no retry and no backoff. In the example run, right
  after the task was created and before any poll has failed before, one failed poll
  stops the polling interval and shows the failure to the user.
\<close>

theorem poll_failure_retried_counterexample:
  "poll_timers example_polling = [(2, 3000, PollRun (JStr ''t1''))] \<and>
   poll_timers (step (Invoke Call_onRunGetError) example_polling) = [] \<and>
   runPollingIntervalId (step (Invoke Call_onRunGetError) example_polling) = None \<and>
   requests (step (Invoke Call_onRunGetError) example_polling) = requests example_polling \<and>
   result_children (step (Invoke Call_onRunGetError) example_polling)
     = [''Error fetching results; please try again.<br />'']"
  by (simp add: example_polling_def poll_timers_def onRunGetError_def stopPolling_def
        clearTimeout_def clearRun_def setUiStateRunDone_def Let_def stopStatusUpdates_def
        setStatus_def clearResult_def addResult_def)

text \<open>
  C3, amended. When a status poll fails at the transport level (the error callback
  runs, or a response with a body carries a status other than 200), the client does
  not retry: at this first failure it stops the polling interval, clears the run,
  sends nothing, and renders \<^verbatim>\<open>Ready\<close> and
  \<^verbatim>\<open>Error fetching results; please try again.\<close>
\<close>

theorem onRunGetError_stops_polling:
  assumes "client_inv s"
  shows "(let s' = onRunGetError s in
            poll_timers s' = [] \<and> runPollingIntervalId s' = None \<and> runStart s' = None \<and>
            runTicket s' = JNull \<and> runPayload s' = JNull \<and>
            requests s' = requests s \<and> status_text s' = ''Ready'' \<and>
            result_children s' = [''Error fetching results; please try again.<br />'']) \<and>
         (xhr_status x \<noteq> 200 \<and> data \<noteq> No_data \<longrightarrow>
            onRunGetSuccess data x s = (None, onRunGetError s))"
proof -
  have inv: "client_inv (onRunGetError s)"
    unfolding onRunGetError_def
    by (intro inv_setUiStateRunDone inv_view [OF inv_stopPolling [OF assms]]) simp
  have none: "runPollingIntervalId (onRunGetError s) = None"
    by (simp add: onRunGetError_def setUiStateRunDone_def Let_def stopStatusUpdates_def
          clearTimeout_def stopPolling_def clearRun_def setStatus_def clearResult_def
          addResult_def split: option.splits)
  have pt: "poll_timers (onRunGetError s) = []"
    using inv none by (simp add: client_inv_def polling_inv_def)
  have rest: "runStart (onRunGetError s) = None" "runTicket (onRunGetError s) = JNull"
    "runPayload (onRunGetError s) = JNull" "status_text (onRunGetError s) = ''Ready''"
    "result_children (onRunGetError s) = [''Error fetching results; please try again.<br />'']"
    by (simp_all add: onRunGetError_def setUiStateRunDone_def Let_def stopStatusUpdates_def
          clearTimeout_def stopPolling_def clearRun_def setStatus_def clearResult_def
          addResult_def split: option.splits)
  show ?thesis
    using pt none rest
    by (cases data) (simp_all add: Let_def onRunGetSuccess_def)
qed

theorem onRunGetError_stops_polling_witness:
  "poll_timers (onRunGetError example_polling) = [] \<and>
   result_children (onRunGetError example_polling)
     = [''Error fetching results; please try again.<br />''] \<and>
   onRunGetSuccess No_payload
       \<lparr> xhr_status = 304, responseText = [], responseJSON = JUndefined \<rparr> example_polling
     = (None, onRunGetError example_polling)"
  using onRunGetError_stops_polling
          [OF example_polling_inv,
           of "\<lparr> xhr_status = 304, responseText = [], responseJSON = JUndefined \<rparr>" No_payload]
  by (simp add: Let_def)

subsection \<open>C4: three failures, three texts\<close>

text \<open>
  C4. A create-task failure whose response has a non-empty body with the JSON value
  \<^verbatim>\<open>"Worker locked"\<close> renders \<^verbatim>\<open>All workers busy; please try again later.\<close>, any
  other create-task failure renders \<^verbatim>\<open>Unable to start job.\<close>, and a failed status
  poll renders \<^verbatim>\<open>Error fetching results; please try again.\<close>; the three contents of
  the result element differ pairwise, whatever the states the failures arrive in.
\<close>

theorem failure_messages_distinct:
  assumes "responseText x1 \<noteq> [] \<and> strict_eq_str (responseJSON x1) ''Worker locked''"
    and "\<not> (responseText x2 \<noteq> [] \<and> strict_eq_str (responseJSON x2) ''Worker locked'')"
  shows "result_children (onProjectPostError x1 s1)
           = [''All workers busy; please try again later.<br />''] \<and>
         result_children (onProjectPostError x2 s2) = [''Unable to start job.<br />''] \<and>
         result_children (onRunGetError s3)
           = [''Error fetching results; please try again.<br />''] \<and>
         result_children (onProjectPostError x1 s1) \<noteq> result_children (onProjectPostError x2 s2) \<and>
         result_children (onProjectPostError x1 s1) \<noteq> result_children (onRunGetError s3) \<and>
         result_children (onProjectPostError x2 s2) \<noteq> result_children (onRunGetError s3)"
  using assms
  by (simp add: onProjectPostError_def onRunGetError_def setUiStateRunDone_def Let_def
        addResult_def setStatus_def clearResult_def)

theorem failure_messages_distinct_witness:
  "result_children
     (onProjectPostError
        \<lparr> xhr_status = 500, responseText = ''Worker locked'', responseJSON = JStr ''Worker locked'' \<rparr>
        example_polling)
     = [''All workers busy; please try again later.<br />''] \<and>
   result_children
     (onProjectPostError
        \<lparr> xhr_status = 500, responseText = ''Internal error'', responseJSON = JUndefined \<rparr>
        example_polling)
     = [''Unable to start job.<br />''] \<and>
   result_children (onRunGetError example_polling)
     = [''Error fetching results; please try again.<br />'']"
  using failure_messages_distinct
          [of "\<lparr> xhr_status = 500, responseText = ''Worker locked'',
                  responseJSON = JStr ''Worker locked'' \<rparr>"
              "\<lparr> xhr_status = 500, responseText = ''Internal error'',
                  responseJSON = JUndefined \<rparr>"
              example_polling example_polling example_polling]
  by (simp add: strict_eq_str_def)

subsection \<open>C5: the create-task request\<close>

text \<open>
  C5, as stated, fails on the name of a field: the body the client sends has the
  fields \<^verbatim>\<open>patches\<close>, \<^verbatim>\<open>project\<close> and \<^verbatim>\<open>user_id\<close>; it has no field
  \<^verbatim>\<open>userId\<close>. The request below is the one a click sends once the example project
  is loaded.
\<close>

theorem create_task_userId_counterexample:
  "map fst (json_fields (ajax_request (last (requests
      (step (Click 0)
         (step (Invoke (Call_onProjectGetSuccess (Payload example_project) ok200))
            example_page))))))
     = [''patches'', ''project'', ''user_id''] \<and>
   ''userId'' \<notin> set (map fst (json_fields (ajax_request (last (requests
      (step (Click 0)
         (step (Invoke (Call_onProjectGetSuccess (Payload example_project) ok200))
            example_page)))))))"
proof -
  have "click_handlers
          (step (Invoke (Call_onProjectGetSuccess (Payload example_project) ok200)) example_page)
        = 1"
    by (simp add: example_page_def example_project_def ok200_def initial_def
          onProjectGetSuccess_def setFilename_def configureEditor_def getEditorMode_def
          setUiStateReady_def setEditorContents_def Let_def)
  then show ?thesis
    by (simp add: requests_onRunControlClick json_fields_def)
qed

text \<open>
  C5, amended. Every create-task request the client sends is a POST to
  \<^verbatim>\<open>/rest/balancer/v1\<close> whose \<^verbatim>\<open>request\<close> parameter is the JSON text of an object
  with exactly the fields \<^verbatim>\<open>patches\<close>, \<^verbatim>\<open>project\<close> and \<^verbatim>\<open>user_id\<close>:
  \<^verbatim>\<open>patches\<close> is a list of the single pair of the editor's current contents and the
  current editor file name, \<^verbatim>\<open>project\<close> is the module's project name (the
  \<^verbatim>\<open>projectName\<close> of the loaded project), and \<^verbatim>\<open>user_id\<close> is the constant
  \<^verbatim>\<open>some_user\<close>. No other function of the module sends a POST: in every state
  reached from a freshly loaded page, every POST sent has this form.
\<close>

theorem create_task_request_fields:
  "requests (onRunControlClick now s) = requests s @
     [\<lparr> ajax_url = ''/rest/balancer/v1'', ajax_crossDomain = True, ajax_type = ''POST'',
        ajax_request =
          JsonObject
            [(''patches'',
              JsonArray [JsonObject [(''contents'', JsonString (editor_value s)),
                                     (''filename'', json_of_nullable (editorFile s))]]),
             (''project'', json_of_nullable (projectName s)),
             (''user_id'', JsonString ''some_user'')],
        ajax_dataType = ''json'',
        ajax_success = OnProjectPostSuccess, ajax_error = OnProjectPostError \<rparr>] \<and>
   (xhr_status x = 200 \<longrightarrow>
      projectName (snd (onProjectGetSuccess (Payload p) x s)) = Some (pp_projectName p) \<and>
      editorFile (snd (onProjectGetSuccess (Payload p) x s)) = Some (pp_filename p)) \<and>
   (\<forall>r \<in> set (requests (run es (initial href search classes))).
      ajax_type r = ''POST'' \<longrightarrow> is_create_task (ajax_request r))"
proof -
  have "posts_ok (initial href search classes)"
    by (simp add: posts_ok_def initial_def)
  then have "posts_ok (run es (initial href search classes))" by (rule posts_ok_run)
  then have all: "\<forall>r \<in> set (requests (run es (initial href search classes))).
                    ajax_type r = ''POST'' \<longrightarrow> is_create_task (ajax_request r)"
    by (simp add: posts_ok_def list_all_iff)
  have loaded: "projectName (snd (onProjectGetSuccess (Payload p) x s)) = Some (pp_projectName p) \<and>
                editorFile (snd (onProjectGetSuccess (Payload p) x s)) = Some (pp_filename p)"
    if "xhr_status x = 200"
    using that
    by (simp add: onProjectGetSuccess_def Let_def setFilename_def configureEditor_def
          getEditorMode_def setUiStateReady_def setEditorContents_def)
  show ?thesis using all loaded requests_onRunControlClick [of now s] by blast
qed

theorem create_task_request_fields_witness:
  "requests (onRunControlClick 0 example_page) =
     [\<lparr> ajax_url = ''/rest/balancer/v1'', ajax_crossDomain = True, ajax_type = ''POST'',
        ajax_request =
          JsonObject
            [(''patches'',
              JsonArray [JsonObject [(''contents'', JsonString []), (''filename'', JsonNull)]]),
             (''project'', JsonNull),
             (''user_id'', JsonString ''some_user'')],
        ajax_dataType = ''json'',
        ajax_success = OnProjectPostSuccess, ajax_error = OnProjectPostError \<rparr>] \<and>
   projectName (snd (onProjectGetSuccess (Payload example_project) ok200 example_page))
     = Some ''Example'' \<and>
   is_create_task (ajax_request (hd (requests example_polling)))"
proof -
  have r: "run [Invoke (Call_onProjectGetSuccess (Payload example_project) ok200),
                Click 0,
                Invoke (Call_onProjectPostSuccess (Payload (JStr ''t1'')) ok200 1000)]
             (initial ''http://host/demo?project=Example'' ''?project=Example''
                {''glyphicon-play''})
           = example_polling"
    using example_polling_reached by (simp add: example_page_def)
  have h: "hd (requests example_polling) \<in> set (requests example_polling)"
          "ajax_type (hd (requests example_polling)) = ''POST''"
    by (simp_all add: example_polling_def)
  have e: "requests example_page = []" "editor_value example_page = []"
          "editorFile example_page = None" "projectName example_page = None"
    by (simp_all add: example_page_def initial_def)
  show ?thesis
    using create_task_request_fields
            [of 0 example_page ok200 example_project
                "[Invoke (Call_onProjectGetSuccess (Payload example_project) ok200),
                  Click 0,
                  Invoke (Call_onProjectPostSuccess (Payload (JStr ''t1'')) ok200 1000)]"
                "''http://host/demo?project=Example''" "''?project=Example''"
                "{''glyphicon-play''}"]
          h e
    unfolding r
    by (simp add: ok200_def example_project_def)
qed

subsection \<open>C6: terminal records are stable\<close>

text \<open>
  C6. In the model of the specification: once \<^verbatim>\<open>pollStatus(t)\<close> has returned a
  record with a terminal status from a worker, then after any sequence of task
  creations, completions of background units, housekeeping runs, polls and registry
  evictions, \<^verbatim>\<open>pollStatus(t)\<close> on that worker returns the identical record (status,
  payload and time of writing), or reports an unknown ticket when housekeeping has
  collected the record.
\<close>

theorem terminal_record_stable:
  assumes "sys_inv sys"
    and "wid < length (workers sys)"
    and "pollStatus (workers sys ! wid) t = Inr r"
    and "terminal (rr_status r)"
  shows "wid < length (workers (sys_run es sys)) \<and>
         (pollStatus (workers (sys_run es sys) ! wid) t = Inr r \<or>
          pollStatus (workers (sys_run es sys) ! wid) t = Inl UnknownTicket)"
proof -
  have found: "map_of (store (workers sys ! wid)) t = Some r"
    using assms(3) by (simp add: pollStatus_def split: option.splits)
  then have "(t, r) \<in> set (store (workers sys ! wid))" by (rule map_of_SomeD)
  moreover have "worker_inv (next_ticket sys) (workers sys ! wid)"
    using assms(1,2) by (simp add: sys_inv_def list_all_length)
  ultimately have "t < next_ticket sys"
    by (auto simp: worker_inv_def list_all_iff)
  then have "sys_kept wid t r sys"
    using assms(2,4) found by (simp add: sys_kept_def kept_def)
  then have "sys_kept wid t r (sys_run es sys)"
    using assms(1) by (intro sys_kept_run)
  then show ?thesis
    by (auto simp: sys_kept_def kept_def pollStatus_def)
qed

theorem terminal_record_stable_witness:
  "pollStatus
     (workers
        (sys_run [CreateTask 0 30, Poll 0 0, Housekeeping 0 100 40, Finish 0 False ''boom'' 50]
           (sys_run [CreateTask 0 10, Finish 0 True ''abc=='' 20] (sys_initial 1))) ! 0) 0
     = Inr \<lparr> rr_status = Complete, rr_payload = Some ''abc=='', rr_writtenAt = 20 \<rparr> \<and>
   pollStatus
     (workers
        (sys_run [Housekeeping 0 100 500]
           (sys_run [CreateTask 0 10, Finish 0 True ''abc=='' 20] (sys_initial 1))) ! 0) 0
     = Inl UnknownTicket"
proof -
  let ?sys = "sys_run [CreateTask 0 10, Finish 0 True ''abc=='' 20] (sys_initial 1)"
  let ?r = "\<lparr> rr_status = Complete, rr_payload = Some ''abc=='', rr_writtenAt = 20 \<rparr>"
  have i: "sys_inv ?sys" by (rule sys_inv_run [OF sys_inv_initial])
  have v: "?sys = \<lparr> workers = [\<lparr> store = [(0, ?r)], lock = None \<rparr>],
                     registry = [(0, 0)], next_ticket = 1 \<rparr>"
    by (simp add: sys_run_def sys_initial_def createTask_def submit_def finish_def
          on_worker_def Let_def)
  have w: "0 < length (workers ?sys)" unfolding v by simp
  have p: "pollStatus (workers ?sys ! 0) 0 = Inr ?r" unfolding v by (simp add: pollStatus_def)
  have t: "terminal (rr_status ?r)" by simp
  show ?thesis
    using terminal_record_stable [OF i w p t,
            of "[CreateTask 0 30, Poll 0 0, Housekeeping 0 100 40, Finish 0 False ''boom'' 50]"]
          terminal_record_stable [OF i w p t, of "[Housekeeping 0 100 500]"]
    unfolding v
    by (simp add: sys_run_def createTask_def submit_def finish_def housekeeping_def
          on_worker_def Let_def pollStatus_def)
qed

subsection \<open>C7: one polling loop at most\<close>

text \<open>
  C7. Starting to poll while \<^verbatim>\<open>_runPollingIntervalId\<close> is not \<^verbatim>\<open>null\<close> does
  nothing but log a line. A successful create-task response (status 200, with its
  payload) that arrives while no loop is active records the time as the start of the
  run and starts exactly one polling interval, of 3000 milliseconds, for the ticket.
  Stopping resets the handle and the start time and leaves no polling interval. The
  invariant of the client (the handle is that of the one active polling interval or
  \<^verbatim>\<open>null\<close> when there is none, and the start time is set exactly then) holds on a
  freshly loaded page, is kept by every function of the module and every event, and
  so holds in every state reached; under it at most one polling interval is active.
\<close>

theorem at_most_one_polling_loop:
  "(runPollingIntervalId s \<noteq> None \<longrightarrow>
      startPolling ticket now s = s\<lparr> console := console s @ [''non-null polling id''] \<rparr>) \<and>
   (client_inv s \<and> xhr_status x = 200 \<and> runPollingIntervalId s = None \<longrightarrow>
      (let s' = snd (onProjectPostSuccess (Payload ticket) x now s) in
         runStart s' = Some now \<and>
         runPollingIntervalId s' = Some (next_timer_id s) \<and>
         poll_timers s' = [(next_timer_id s, 3000, PollRun ticket)])) \<and>
   (client_inv s \<longrightarrow>
      runPollingIntervalId (stopPolling s) = None \<and> runStart (stopPolling s) = None \<and>
      poll_timers (stopPolling s) = []) \<and>
   client_inv (initial href search classes) \<and>
   (client_inv s \<longrightarrow> client_inv (step e s)) \<and>
   (client_inv s \<longrightarrow> polling_inv s \<and> length (poll_timers s) \<le> 1) \<and>
   polling_inv (run es (initial href search classes))"
proof -
  have noop: "startPolling ticket now s = s\<lparr> console := console s @ [''non-null polling id''] \<rparr>"
    if "runPollingIntervalId s \<noteq> None"
    using that by (simp add: startPolling_def)
  have start: "runStart (snd (onProjectPostSuccess (Payload ticket) x now s)) = Some now \<and>
               runPollingIntervalId (snd (onProjectPostSuccess (Payload ticket) x now s))
                 = Some (next_timer_id s) \<and>
               poll_timers (snd (onProjectPostSuccess (Payload ticket) x now s))
                 = [(next_timer_id s, 3000, PollRun ticket)]"
    if "client_inv s" "xhr_status x = 200" "runPollingIntervalId s = None"
    using that
    by (simp add: onProjectPostSuccess_def startPolling_def setInterval_def Let_def
          poll_timers_def client_inv_def polling_inv_def runPollingIntervalMsec_def)
  have stop: "runPollingIntervalId (stopPolling s) = None \<and> runStart (stopPolling s) = None \<and>
              poll_timers (stopPolling s) = []"
    if "client_inv s"
  proof -
    have "client_inv (stopPolling s)" using that by (rule inv_stopPolling)
    moreover have "runPollingIntervalId (stopPolling s) = None" "runStart (stopPolling s) = None"
      by (simp_all add: stopPolling_def)
    ultimately show ?thesis by (simp add: client_inv_def polling_inv_def)
  qed
  have one: "polling_inv s \<and> length (poll_timers s) \<le> 1" if "client_inv s"
  proof -
    have p: "polling_inv s" using that by (simp add: client_inv_def)
    then have "length (map fst (poll_timers s)) \<le> 1"
      by (cases "runPollingIntervalId s") (simp_all add: polling_inv_def)
    then show ?thesis using p by simp
  qed
  have "client_inv (run es (initial href search classes))"
    by (rule inv_run [OF inv_initial])
  then have reach: "polling_inv (run es (initial href search classes))"
    by (simp add: client_inv_def)
  show ?thesis
    using noop start stop one reach inv_initial [of href search classes] inv_step [of s e]
    by (simp add: Let_def)
qed

theorem at_most_one_polling_loop_witness:
  "startPolling (JStr ''t2'') 5000 example_polling
     = example_polling\<lparr> console := [''non-null polling id''] \<rparr> \<and>
   poll_timers (snd (onProjectPostSuccess (Payload (JStr ''t1'')) ok200 1000 example_page))
     = [(1, 3000, PollRun (JStr ''t1''))] \<and>
   poll_timers (stopPolling example_polling) = [] \<and>
   client_inv (step (Click 7) example_polling) \<and>
   length (poll_timers example_polling) \<le> 1"
proof -
  have a: "runPollingIntervalId example_polling \<noteq> None" "console example_polling = []"
    by (simp_all add: example_polling_def)
  have i: "client_inv example_page" unfolding example_page_def by (rule inv_initial)
  have b: "xhr_status ok200 = 200"
          "runPollingIntervalId example_page = None" "next_timer_id example_page = 1"
    by (simp_all add: example_page_def ok200_def initial_def)
  show ?thesis
    using at_most_one_polling_loop
            [of example_polling "JStr ''t2''" 5000 ok200 _ _ _ "Click 7" "[]"]
          at_most_one_polling_loop
            [of example_page "JStr ''t1''" 1000 ok200 _ _ _ "Click 7" "[]"]
          a b i example_polling_inv
    by (simp add: Let_def)
qed

subsection \<open>C8: the payload is formatted by status\<close>

text \<open>
  C8. \<^verbatim>\<open>_formatPayload\<close> returns, for the status \<^verbatim>\<open>"complete"\<close>, an image element
  whose source is the payload as a base64 JPEG data URL, and for every other status
  the payload as text with \<^verbatim>\<open><br />\<close> written before each of its newline sequences;
  and that is what a terminal poll result puts into the result element (followed by
  a line break).
\<close>

theorem formatPayload_by_status:
  "formatPayload status payload =
     (if status = JStr ''complete''
      then ''<img src='' @ [CHR 0x27] @ ''data:image/jpeg;base64,'' @ to_string payload
             @ [CHR 0x27] @ '' />''
      else concat (map br_before (newline_tokens (to_string payload)))) \<and>
   (xhr_status x = 200 \<and> \<not> strict_eq_str (p_status p) taskRunning \<longrightarrow>
      result_children (snd (onRunGetSuccess (Payload p) x s))
        = [formatPayload (p_status p) (p_payload p) @ ''<br />''])"
  using replace_all_spec [of "to_string payload"]
  by (cases status)
     (simp_all add: formatPayload_def strict_eq_str_def taskComplete_def
        formatTaskCompletePayload_def newlineToBr_def spec_newlineToBr_def
        onRunGetSuccess_def Let_def setUiStateRunDone_def addResult_def setStatus_def
        clearResult_def)

theorem formatPayload_by_status_witness:
  "formatPayload (JStr ''complete'') (JStr ''abc=='')
     = ''<img src='' @ [CHR 0x27] @ ''data:image/jpeg;base64,abc=='' @ [CHR 0x27] @ '' />'' \<and>
   formatPayload (JStr ''error'') (JStr (''line 1'' @ [LF] @ ''line 2''))
     = ''line 1<br />'' @ [LF] @ ''line 2'' \<and>
   result_children (snd (onRunGetSuccess
       (Payload \<lparr> p_status = JStr ''complete'', p_payload = JStr ''abc=='' \<rparr>) ok200
       example_polling))
     = [''<img src='' @ [CHR 0x27] @ ''data:image/jpeg;base64,abc=='' @ [CHR 0x27]
          @ '' /><br />'']"
  using formatPayload_by_status
          [of "JStr ''complete''" "JStr ''abc==''" ok200
              "\<lparr> p_status = JStr ''complete'', p_payload = JStr ''abc=='' \<rparr>" example_polling]
        formatPayload_by_status
          [of "JStr ''error''" "JStr (''line 1'' @ [LF] @ ''line 2'')" ok200
              "\<lparr> p_status = JStr ''complete'', p_payload = JStr ''abc=='' \<rparr>" example_polling]
  by (simp add: ok200_def strict_eq_str_def taskRunning_def br_before_def is_newline_seq_def
        CR_def LF_def)

subsection \<open>C9: elapsed seconds, and no timeout before a start is recorded\<close>

text \<open>
  C9. \<^verbatim>\<open>_getDeltaSeconds(from, to)\<close> returns the number 0 when \<open>from\<close> is
  \<^verbatim>\<open>null\<close>, whatever \<open>to\<close> is. Otherwise (for time values less than \<open>2^53\<close>
  milliseconds apart, where the subtraction is exact) it returns the decimal string of
  a number of tenths of a second \<open>n\<close>, with the sign of \<open>to - from\<close>, and \<open>n\<close> tenths
  are within 50 milliseconds of the distance: the difference rounded to one decimal
  place. Hence, with no start recorded, the comparison with the timeout of 90 seconds
  is false and \<^verbatim>\<open>_getRunResults\<close> takes the branch that sends the status request.
\<close>

theorem getDeltaSeconds_rounds_and_null_is_zero:
  "getDeltaSeconds None to = Number0 \<and>
   delta_tenths (getDeltaSeconds None to) = 0 \<and>
   (\<bar>to - f\<bar> < 2 ^ 53 \<longrightarrow>
      (\<exists>n. getDeltaSeconds (Some f) to = Fixed1 (to - f < 0) n \<and>
           \<bar>100 * int n - \<bar>to - f\<bar>\<bar> \<le> 50 \<and>
           delta_text (getDeltaSeconds (Some f) to)
             = (if to - f < 0 then ''-'' else []) @ digits (n div 10) @ ''.'' @ digits (n mod 10))) \<and>
   \<not> delta_gt (getDeltaSeconds None to) runPollingTimeoutSec \<and>
   (runStart s = None \<longrightarrow>
      getRunResults ticket now s = s\<lparr> requests := requests s @ [run_status_request ticket] \<rparr>)"
proof -
  have round: "\<bar>100 * int (toFixed1 (fdiv1000 (nat \<bar>to - f\<bar>))) - \<bar>to - f\<bar>\<bar> \<le> 50"
    if "\<bar>to - f\<bar> < 2 ^ 53"
  proof -
    have "nat \<bar>to - f\<bar> < nat (2 ^ 53)" using that by linarith
    then have "nat \<bar>to - f\<bar> < 2 ^ 53" by simp
    from toFixed1_rounds [OF this] show ?thesis by linarith
  qed
  show ?thesis
    using round
    by (simp add: getDeltaSeconds_def delta_gt_def runPollingTimeoutSec_def getRunResults_def)
qed

theorem getDeltaSeconds_rounds_and_null_is_zero_witness:
  "getDeltaSeconds None 91234 = Number0 \<and>
   getDeltaSeconds (Some 1000) 91234 = Fixed1 False 902 \<and>
   delta_text (getDeltaSeconds (Some 1000) 91234) = ''90.2'' \<and>
   getRunResults (JStr ''t1'') 91234 example_page
     = example_page\<lparr> requests := [run_status_request (JStr ''t1'')] \<rparr>"
proof -
  have n: "toFixed1 (fdiv1000 90234) = 902"
    by (simp add: toFixed1_def fdiv1000_def norm_shift.simps)
  have d: "digits 90 = ''90''" "digits 2 = ''2''"
    by (simp_all add: digits.simps)
  have r: "runStart example_page = None" "requests example_page = []"
    by (simp_all add: example_page_def initial_def)
  show ?thesis
    using getDeltaSeconds_rounds_and_null_is_zero
            [of 91234 1000 example_page "JStr ''t1''" 91234] n d r
    by (simp add: getDeltaSeconds_def)
qed

subsection \<open>C10: line breaks before newlines\<close>

text \<open>
  C10. \<^verbatim>\<open>_newlineToBr\<close>, for every input coerced to a string, returns the string
  with \<^verbatim>\<open><br />\<close> inserted immediately before each newline sequence, the sequences
  being cut from the left with the pairs \<^verbatim>\<open>\r\n\<close> and \<^verbatim>\<open>\n\r\<close> preferred to a single
  \<^verbatim>\<open>\r\<close> or \<^verbatim>\<open>\n\<close>: the result is the concatenation of the tokens of the input,
  each newline sequence preceded by \<^verbatim>\<open><br />\<close>; the tokens concatenated are the input
  itself, and each token is a newline sequence or a single character that is not a
  newline, so nothing else is added, removed or reordered.
\<close>

theorem newlineToBr_inserts_br:
  "newlineToBr data = concat (map br_before (newline_tokens (to_string data))) \<and>
   concat (newline_tokens (to_string data)) = to_string data \<and>
   (\<forall>t \<in> set (newline_tokens (to_string data)).
      is_newline_seq t \<or> (\<exists>c. t = [c] \<and> \<not> is_newline_char c))"
  using replace_all_spec [of "to_string data"] concat_newline_tokens [of "to_string data"]
    newline_tokens_shape [of _ "to_string data"]
  by (auto simp: newlineToBr_def spec_newlineToBr_def)

theorem newlineToBr_inserts_br_witness:
  "newlineToBr (JStr (''a>'' @ [LF, CR, LF] @ ''b'' @ [CR]))
     = ''a><br />'' @ [LF, CR] @ ''<br />'' @ [LF] @ ''b<br />'' @ [CR]"
  using newlineToBr_inserts_br [of "JStr (''a>'' @ [LF, CR, LF] @ ''b'' @ [CR])"]
  by (simp add: br_before_def is_newline_seq_def CR_def LF_def)

end
